theory Spec2Isabelle
  imports Complex_Main "HOL-Library.Word"
begin

section \<open>The JACK output driver of Shairport Sync (audio\_jack.c)\<close>

text \<open>
  The driver keeps a byte ring between the player, which calls \<open>play\<close>, and the JACK
  process callback \<open>jack_stream_write_cb\<close>, which takes frames out, converts them to
  floating point and hands them to the two output ports. \<open>jack_delay\<close> estimates the
  frames still to be played, \<open>jack_client_open_if_needed\<close> opens the session with the
  JACK server and \<open>jack_init\<close> reads the settings and allocates the ring.

  The model is sequential: every function runs as one atomic step on the record of the
  file's global variables, and what the locks order is not part of it. The machine is
  a 64-bit little-endian one: \<open>size_t\<close>, \<open>long\<close> and pointers have 64 bits, \<open>int\<close>
  has 32. Sizes and pointers are natural numbers, with the wrap-around written out
  where a signed value or a difference of pointers becomes a \<open>size_t\<close>; \<open>int\<close>,
  \<open>int64_t\<close> and \<open>jack_nframes_t\<close> values are words, whose arithmetic wraps around;
  memory is a flat store of bytes indexed by address.
\<close>

subsection \<open>Constants and machine arithmetic\<close>

type_synonym byte = "8 word"
type_synonym short = "16 word"
type_synonym jack_nframes_t = "32 word"
type_synonym int64_t = "64 word"

text \<open>\<open>#define buffer_size 44100 * 4 * 2 * 2\<close> (four seconds of 16-bit stereo).\<close>

definition buffer_size :: nat where
  "buffer_size = 44100 * 4 * 2 * 2"

definition SHRT_MAX :: int where
  "SHRT_MAX = 32767"

definition SHRT_MIN :: int where
  "SHRT_MIN = - 32768"

subsection \<open>deinterleave\_and\_convert\_stream: the conversion of one sample\<close>

text \<open>
  The body of the loop computes, in double precision, \<open>(1.0 * sample) / SHRT_MAX\<close> for
  a sample that is not negative and \<open>-(1.0 * sample) / SHRT_MIN\<close> otherwise, and stores
  the quotient in a \<open>jack_default_audio_sample_t\<close>, a C float. The quotient is written
  here over the reals; \<open>rnd\<close> stands for the rounding of the exact quotient to the
  stored float (the double division followed by the conversion to float) and is a
  parameter of the model.
\<close>

definition converted_value :: "(real \<Rightarrow> real) \<Rightarrow> short \<Rightarrow> real" where
  "converted_value rnd sample =
     (if sint sample \<ge> 0
      then rnd ((1 * real_of_int (sint sample)) / real_of_int SHRT_MAX)
      else rnd (- (1 * real_of_int (sint sample)) / real_of_int SHRT_MIN))"

subsection \<open>The global variables\<close>

text \<open>
  \<open>jack_latency_range_t\<close> is the JACK structure of two \<open>jack_nframes_t\<close> fields
  \<open>min\<close> and \<open>max\<close>.
\<close>

record jack_latency_range_t =
  range_min :: jack_nframes_t
  range_max :: jack_nframes_t

text \<open>
  What the settings file holds for the driver: each lookup (\<open>config_lookup_string\<close>,
  \<open>config_lookup_int\<close>, \<open>config_set_lookup_bool\<close>) finds a value or nothing.
\<close>

record settings =
  lookup_client_name :: "string option"
  lookup_left_channel_name :: "string option"
  lookup_right_channel_name :: "string option"
  lookup_auto_client_open_interval :: "int option"
  lookup_auto_client_disconnect :: "int option"

text \<open>The fields of the global \<open>config\<close> that this file reads or writes.\<close>

record config_t =
  cfg :: "settings option"
  audio_backend_latency_offset :: real
  audio_backend_buffer_desired_length :: real
  audio_backend_buffer_interpolation_threshold_in_seconds :: real
  jack_client_name :: "string option"
  jack_left_channel_name :: "string option"
  jack_right_channel_name :: "string option"
  jack_auto_client_open_interval :: int
  jack_auto_client_disconnect :: int

text \<open>
  The calls of \<open>debug\<close> and \<open>inform\<close> are recorded with their level and arguments.
  Each message stands for one format string of the source whose arguments, if any, have
  the types its conversions ask for. The one call whose arguments do not,
  the report of an invalid interval in \<open>jack_init\<close>, is recorded with its format string
  and its arguments as they are passed.
\<close>

datatype message =
    Cannot_activate_client
  | Client_opened
  | Cannot_set_latency_callback
  | Wrong_speed jack_nframes_t
  | No_space_for_scanner_thread
  | Try_to_open_client

datatype printf_arg = Int_arg int | String_arg string

datatype log_call =
    Debug nat message
  | Inform message
  | Debug_format nat string "printf_arg list"

text \<open>The calls made to the JACK library, in order.\<close>

datatype jack_call =
    Jack_client_open
  | Jack_set_process_callback
  | Jack_port_register "string option"
  | Jack_get_sample_rate
  | Jack_set_latency_callback
  | Jack_activate

text \<open>What the JACK library answers to an open attempt.\<close>

record jack_server =
  jack_client_open_result :: "nat option"
  jack_port_register_left_result :: "nat option"
  jack_port_register_right_result :: "nat option"
  jack_get_sample_rate_result :: jack_nframes_t
  jack_set_latency_callback_result :: int
  jack_activate_result :: int

text \<open>
  The globals of the file. The four pointers into the ring are addresses in \<open>memory\<close>;
  the handles of the client and the ports are \<open>None\<close> when null. \<open>log_calls\<close> and
  \<open>jack_calls\<close> record the calls made to the logger and to JACK, and
  \<open>open_client_if_necessary_thread\<close> tells whether the scanner thread was created.
\<close>

record jack_state =
  memory :: "nat \<Rightarrow> byte"
  audio_lmb :: nat
  audio_umb :: nat
  audio_toq :: nat
  audio_eoq :: nat
  audio_occupancy :: nat
  open_client_if_necessary_thread :: bool
  left_port :: "nat option"
  right_port :: "nat option"
  client_is_open :: int
  client :: "nat option"
  sample_rate :: jack_nframes_t
  latest_left_latency_range :: jack_latency_range_t
  latest_right_latency_range :: jack_latency_range_t
  time_of_latest_transfer :: int64_t
  config :: config_t
  log_calls :: "log_call list"
  jack_calls :: "jack_call list"

definition debug :: "nat \<Rightarrow> message \<Rightarrow> jack_state \<Rightarrow> jack_state" where
  "debug level msg s = s\<lparr>log_calls := log_calls s @ [Debug level msg]\<rparr>"

definition inform :: "message \<Rightarrow> jack_state \<Rightarrow> jack_state" where
  "inform msg s = s\<lparr>log_calls := log_calls s @ [Inform msg]\<rparr>"

definition jack_call :: "jack_call \<Rightarrow> jack_state \<Rightarrow> jack_state" where
  "jack_call c s = s\<lparr>jack_calls := jack_calls s @ [c]\<rparr>"

subsection \<open>Format strings\<close>

text \<open>
  The conversions of a format string, in order: the character after each \<open>%\<close>, where
  \<open>%%\<close> is a literal percent sign. The formats of this file use no flags or widths.
\<close>

fun format_conversions :: "string \<Rightarrow> char list" where
  "format_conversions (c # d # cs) =
     (if c = CHR ''%''
      then (if d = CHR ''%'' then format_conversions cs else d # format_conversions cs)
      else format_conversions (d # cs))"
| "format_conversions cs = []"

text \<open>
  In C a conversion must be given an argument of its type: \<open>%d\<close> an \<open>int\<close>, \<open>%s\<close> a
  pointer to a string. Formatting is defined when every conversion finds such an
  argument; a \<open>%s\<close> given an \<open>int\<close> reads a string at that number taken as an address,
  which is undefined behaviour.
\<close>

fun arg_matches :: "char \<Rightarrow> printf_arg \<Rightarrow> bool" where
  "arg_matches c (Int_arg i) = (c = CHR ''d'')"
| "arg_matches c (String_arg str) = (c = CHR ''s'')"

fun rendering_defined :: "char list \<Rightarrow> printf_arg list \<Rightarrow> bool" where
  "rendering_defined [] args = True"
| "rendering_defined (c # cs) [] = False"
| "rendering_defined (c # cs) (a # args) = (arg_matches c a \<and> rendering_defined cs args)"

text \<open>
  The format of the report of an invalid interval, as the source has it:
  \<^verbatim>\<open>Invalid jack auto_client_open_interval "%sd". It should be between 0 and 300, default is %d.\<close>
\<close>

definition invalid_interval_format :: string where
  "invalid_interval_format =
     ''Invalid jack auto_client_open_interval '' @ [CHR 0x22] @ ''%sd'' @ [CHR 0x22]
     @ ''. It should be between 0 and 300, default is %d.''"

datatype fatal = Die_cannot_allocate nat | Undefined_format_argument

text \<open>
  A call of \<open>debug\<close> with a format and arguments. \<open>debug\<close> is not in this file: it
  formats and writes the message at the levels its verbosity shows and returns at once
  at the others; \<open>renders level\<close> tells whether a call of that level is formatted. A
  call that is formatted with an argument of the wrong type does not return: its result
  is \<open>Inl\<close>.
\<close>

definition debug_format ::
  "(nat \<Rightarrow> bool) \<Rightarrow> nat \<Rightarrow> string \<Rightarrow> printf_arg list \<Rightarrow> jack_state \<Rightarrow> fatal + jack_state" where
  "debug_format renders level format args s =
     (if renders level \<and> \<not> rendering_defined (format_conversions format) args
      then Inl Undefined_format_argument
      else Inr (s\<lparr>log_calls := log_calls s @ [Debug_format level format args]\<rparr>))"

subsection \<open>Conversions of the C types\<close>

text \<open>A signed value converted to \<open>size_t\<close> (64 bits, unsigned).\<close>

definition size_t_of_int :: "int \<Rightarrow> nat" where
  "size_t_of_int i = nat (i mod 2 ^ 64)"

text \<open>The difference of two \<open>char *\<close>, converted to \<open>size_t\<close>.\<close>

definition ptr_diff :: "nat \<Rightarrow> nat \<Rightarrow> nat" where
  "ptr_diff p q = size_t_of_int (int p - int q)"

text \<open>A \<open>size_t\<close> passed for a \<open>jack_nframes_t\<close> parameter (32 bits, unsigned).\<close>

definition nframes_of_size_t :: "nat \<Rightarrow> nat" where
  "nframes_of_size_t n = n mod 2 ^ 32"

text \<open>
  \<open>memcpy dest src n\<close>: the \<open>n\<close> bytes of the source, given by offset from the source
  pointer, are stored from address \<open>dest\<close> on.
\<close>

definition memcpy :: "(nat \<Rightarrow> byte) \<Rightarrow> nat \<Rightarrow> (nat \<Rightarrow> byte) \<Rightarrow> nat \<Rightarrow> (nat \<Rightarrow> byte)" where
  "memcpy m dest src n = (\<lambda>a. if dest \<le> a \<and> a < dest + n then src (a - dest) else m a)"

text \<open>The \<open>short\<close> at an address; the two bytes are read in little-endian order.\<close>

definition read_short :: "(nat \<Rightarrow> byte) \<Rightarrow> nat \<Rightarrow> short" where
  "read_short m a = word_cat (m (a + 1)) (m a)"

subsection \<open>play\<close>

text \<open>
  \<open>buf\<close> is the caller's buffer, given by offset from the pointer passed. The function
  has no check of the free space. \<open>samples * 2 * 2\<close> is computed in \<open>int\<close> and converted
  to \<open>size_t\<close>; \<open>audio_occupancy += samples\<close> adds in \<open>size_t\<close>. The result is the
  returned value and the new globals.
\<close>

definition play :: "jack_state \<Rightarrow> (nat \<Rightarrow> byte) \<Rightarrow> 32 word \<Rightarrow> int \<times> jack_state" where
  "play s buf samples =
     (let bytes_to_transfer = size_t_of_int (sint (samples * 2 * 2));
          space_to_end_of_buffer = ptr_diff (audio_umb s) (audio_eoq s)
      in if space_to_end_of_buffer \<ge> bytes_to_transfer
         then (0, s\<lparr>memory := memcpy (memory s) (audio_eoq s) buf bytes_to_transfer,
                     audio_occupancy :=
                       (audio_occupancy s + size_t_of_int (sint samples)) mod 2 ^ 64,
                     audio_eoq := audio_eoq s + bytes_to_transfer\<rparr>)
         else (0, s\<lparr>memory :=
                       memcpy (memcpy (memory s) (audio_eoq s) buf space_to_end_of_buffer)
                         (audio_lmb s) (\<lambda>i. buf (space_to_end_of_buffer + i))
                         (bytes_to_transfer - space_to_end_of_buffer),
                     audio_occupancy :=
                       (audio_occupancy s + size_t_of_int (sint samples)) mod 2 ^ 64,
                     audio_eoq :=
                       audio_lmb s + bytes_to_transfer - space_to_end_of_buffer\<rparr>))"

subsection \<open>deinterleave\_and\_convert\_stream\<close>

datatype ift_type = IFT_frame_left_sample | IFT_frame_right_sample

text \<open>
  The loop: \<open>ifp\<close> is the address of the next sample read, \<open>fp\<close> the index of the next
  float written in the port buffer \<open>out\<close>, and the last argument counts the frames left.
  Each turn moves \<open>ifp\<close> by two shorts and \<open>fp\<close> by one float.
\<close>

fun convert_frames ::
  "(real \<Rightarrow> real) \<Rightarrow> (nat \<Rightarrow> byte) \<Rightarrow> nat \<Rightarrow> (nat \<Rightarrow> real) \<Rightarrow> nat \<Rightarrow> nat \<Rightarrow> (nat \<Rightarrow> real)" where
  "convert_frames rnd m ifp out fp 0 = out"
| "convert_frames rnd m ifp out fp (Suc n) =
     convert_frames rnd m (ifp + 2 + 2)
       (out(fp := converted_value rnd (read_short m ifp))) (fp + 1) n"

definition deinterleave_and_convert_stream ::
  "(real \<Rightarrow> real) \<Rightarrow> (nat \<Rightarrow> byte) \<Rightarrow> nat \<Rightarrow> (nat \<Rightarrow> real) \<Rightarrow> nat \<Rightarrow> nat \<Rightarrow> ift_type
     \<Rightarrow> (nat \<Rightarrow> real)" where
  "deinterleave_and_convert_stream rnd m interleaved_frames out fp number_of_frames side =
     convert_frames rnd m
       (if side = IFT_frame_right_sample then interleaved_frames + 2 else interleaved_frames)
       out fp number_of_frames"

subsection \<open>jack\_stream\_write\_cb\<close>

text \<open>
  What the callback gets from outside: the buffers of the two ports
  (\<open>jack_port_get_buffer\<close>), the latency ranges JACK reports for them
  (\<open>jack_port_get_latency_range\<close>) and the clock (\<open>get_absolute_time_in_fp\<close>).
\<close>

record jack_env =
  left_port_buffer :: "nat \<Rightarrow> real"
  right_port_buffer :: "nat \<Rightarrow> real"
  left_port_latency_range :: jack_latency_range_t
  right_port_latency_range :: jack_latency_range_t
  absolute_time_in_fp :: int64_t

text \<open>The loop that fills the rest of both port buffers with silence.\<close>

function fill_silence ::
  "(nat \<Rightarrow> real) \<times> (nat \<Rightarrow> real) \<Rightarrow> nat \<Rightarrow> nat \<Rightarrow> (nat \<Rightarrow> real) \<times> (nat \<Rightarrow> real)" where
  "fill_silence (left_buffer, right_buffer) i nframes =
     (if i < nframes
      then fill_silence (left_buffer(i := 0), right_buffer(i := 0)) (i + 1) nframes
      else (left_buffer, right_buffer))"
  by pat_completeness auto
termination
  by (relation "measure (\<lambda>(b, i, nframes). nframes - i)") auto

declare fill_silence.simps [simp del]

text \<open>
  The result is the returned value, the two port buffers as the callback leaves them and
  the new globals.
\<close>

definition jack_stream_write_cb ::
  "(real \<Rightarrow> real) \<Rightarrow> jack_state \<Rightarrow> jack_env \<Rightarrow> jack_nframes_t
     \<Rightarrow> int \<times> (nat \<Rightarrow> real) \<times> (nat \<Rightarrow> real) \<times> jack_state" where
  "jack_stream_write_cb rnd s env nframes =
     (let left_buffer = left_port_buffer env;
          right_buffer = right_port_buffer env;
          frames_we_can_transfer =
            (if audio_occupancy s < unat nframes then audio_occupancy s else unat nframes);
          (left_buffer, right_buffer, toq) =
            (if frames_we_can_transfer * 2 * 2 \<le> ptr_diff (audio_umb s) (audio_toq s)
             then
               (deinterleave_and_convert_stream rnd (memory s) (audio_toq s) left_buffer 0
                  (nframes_of_size_t frames_we_can_transfer) IFT_frame_left_sample,
                deinterleave_and_convert_stream rnd (memory s) (audio_toq s) right_buffer 0
                  (nframes_of_size_t frames_we_can_transfer) IFT_frame_right_sample,
                audio_toq s + frames_we_can_transfer * 2 * 2)
             else
               (let first_portion_to_write = ptr_diff (audio_umb s) (audio_toq s) div (2 * 2);
                    (left_buffer, right_buffer) =
                      (if first_portion_to_write \<noteq> 0
                       then
                         (deinterleave_and_convert_stream rnd (memory s) (audio_toq s)
                            left_buffer 0 (nframes_of_size_t first_portion_to_write)
                            IFT_frame_left_sample,
                          deinterleave_and_convert_stream rnd (memory s) (audio_toq s)
                            right_buffer 0 (nframes_of_size_t first_portion_to_write)
                            IFT_frame_right_sample)
                       else (left_buffer, right_buffer))
                in
                 (deinterleave_and_convert_stream rnd (memory s) (audio_lmb s) left_buffer
                    first_portion_to_write
                    (nframes_of_size_t (frames_we_can_transfer - first_portion_to_write))
                    IFT_frame_left_sample,
                  deinterleave_and_convert_stream rnd (memory s) (audio_lmb s) right_buffer
                    first_portion_to_write
                    (nframes_of_size_t (frames_we_can_transfer - first_portion_to_write))
                    IFT_frame_right_sample,
                  audio_lmb s + (frames_we_can_transfer - first_portion_to_write) * 2 * 2)));
          s = s\<lparr>audio_toq := toq,
                 audio_occupancy := audio_occupancy s - frames_we_can_transfer,
                 latest_left_latency_range := left_port_latency_range env,
                 latest_right_latency_range := right_port_latency_range env,
                 time_of_latest_transfer := absolute_time_in_fp env\<rparr>;
          (left_buffer, right_buffer) =
            fill_silence (left_buffer, right_buffer)
              (nframes_of_size_t frames_we_can_transfer) (unat nframes)
      in (0, left_buffer, right_buffer, s))"

subsection \<open>jack\_delay\<close>

text \<open>
  \<open>time_now\<close> is the value of \<open>get_absolute_time_in_fp\<close>, seconds in 32.32 fixed point.
  The base latency is computed in \<open>jack_nframes_t\<close>, the sum in \<open>size_t\<close> and the result
  is stored in a \<open>long\<close> of 64 bits. The result is the returned value and the delay
  written through \<open>the_delay\<close>.
\<close>

definition jack_delay :: "jack_state \<Rightarrow> int64_t \<Rightarrow> int \<times> int" where
  "jack_delay s time_now =
     (let delta = time_now - time_of_latest_transfer s;
          audio_occupancy_now = audio_occupancy s;
          frames_processed_since_latest_latency_check = signed_drop_bit 32 (delta * 44100);
          base_latency = (range_min (latest_left_latency_range s)
                          + range_max (latest_left_latency_range s)) div 2;
          base_latency = (if base_latency = 0
                          then (range_min (latest_right_latency_range s)
                                + range_max (latest_right_latency_range s)) div 2
                          else base_latency);
          the_delay = sint ((ucast base_latency :: 64 word)
                            + word_of_nat audio_occupancy_now
                            - frames_processed_since_latest_latency_check)
      in (0, the_delay))"

subsection \<open>jack\_flush\<close>

definition jack_flush :: "jack_state \<Rightarrow> jack_state" where
  "jack_flush s =
     s\<lparr>audio_toq := audio_lmb s, audio_eoq := audio_lmb s,
       audio_umb := audio_lmb s + buffer_size, audio_occupancy := 0\<rparr>"

subsection \<open>jack\_client\_open\_if\_needed\<close>

text \<open>The result is the returned value, \<open>client_is_open\<close>, and the new globals.\<close>

definition jack_client_open_if_needed :: "jack_state \<Rightarrow> jack_server \<Rightarrow> int \<times> jack_state" where
  "jack_client_open_if_needed s srv =
     (let s =
        (if client_is_open s = 0
         then
           (let s = (jack_call Jack_client_open s)\<lparr>client := jack_client_open_result srv\<rparr>
            in if client s \<noteq> None
               then
                 (let s = jack_call Jack_set_process_callback s;
                      s = (jack_call (Jack_port_register
                             (jack_left_channel_name (config s))) s)
                            \<lparr>left_port := jack_port_register_left_result srv\<rparr>;
                      s = (jack_call (Jack_port_register
                             (jack_right_channel_name (config s))) s)
                            \<lparr>right_port := jack_port_register_right_result srv\<rparr>;
                      s = (jack_call Jack_get_sample_rate s)
                            \<lparr>sample_rate := jack_get_sample_rate_result srv\<rparr>
                  in if sample_rate s = 44100
                     then
                       (let s = jack_call Jack_set_latency_callback s
                        in if jack_set_latency_callback_result srv = 0
                           then
                             (let s = jack_call Jack_activate s
                              in if jack_activate_result srv \<noteq> 0
                                 then debug 1 Cannot_activate_client s
                                 else (debug 2 Client_opened s)\<lparr>client_is_open := 1\<rparr>)
                           else debug 1 Cannot_set_latency_callback s)
                     else inform (Wrong_speed (sample_rate s)) s)
               else s)
         else s)
      in (client_is_open s, s))"

text \<open>One turn of the loop of the scanner thread, before it sleeps.\<close>

definition open_client_if_necessary_thread_function_turn ::
  "jack_state \<Rightarrow> jack_server \<Rightarrow> jack_state" where
  "open_client_if_necessary_thread_function_turn s srv =
     (if client_is_open s = 0
      then snd (jack_client_open_if_needed (debug 1 Try_to_open_client s) srv)
      else s)"

subsection \<open>jack\_init\<close>

text \<open>
  The block of \<open>jack_init\<close> that reads the settings of the driver. The invalid interval
  is passed as an \<open>int\<close> to the \<open>%s\<close> of the format.
\<close>

definition jack_init_settings ::
  "(nat \<Rightarrow> bool) \<Rightarrow> settings \<Rightarrow> jack_state \<Rightarrow> fatal + jack_state" where
  "jack_init_settings renders f s =
     (let s = (case lookup_client_name f of
                 Some str \<Rightarrow> s\<lparr>config := (config s)\<lparr>jack_client_name := Some str\<rparr>\<rparr>
               | None \<Rightarrow> s);
          s = (case lookup_left_channel_name f of
                 Some str \<Rightarrow> s\<lparr>config := (config s)\<lparr>jack_left_channel_name := Some str\<rparr>\<rparr>
               | None \<Rightarrow> s);
          s = (case lookup_right_channel_name f of
                 Some str \<Rightarrow> s\<lparr>config := (config s)\<lparr>jack_right_channel_name := Some str\<rparr>\<rparr>
               | None \<Rightarrow> s);
          r = (case lookup_auto_client_open_interval f of
                 Some v \<Rightarrow>
                   if v < 0 \<or> v > 300
                   then debug_format renders 1 invalid_interval_format
                          [Int_arg v, Int_arg (jack_auto_client_open_interval (config s))] s
                   else Inr (s\<lparr>config := (config s)\<lparr>jack_auto_client_open_interval := v\<rparr>\<rparr>)
               | None \<Rightarrow> Inr s)
      in case r of
           Inl e \<Rightarrow> Inl e
         | Inr s \<Rightarrow>
            Inr (case lookup_auto_client_disconnect f of
                   Some b \<Rightarrow> s\<lparr>config := (config s)\<lparr>jack_auto_client_disconnect := b\<rparr>\<rparr>
                 | None \<Rightarrow> s))"

text \<open>The defaults set at the start of \<open>jack_init\<close>.\<close>

definition jack_init_defaults :: "jack_state \<Rightarrow> jack_state" where
  "jack_init_defaults s =
     s\<lparr>config := (config s)
         \<lparr>audio_backend_latency_offset := 0,
          audio_backend_buffer_desired_length := 0.500,
          audio_backend_buffer_interpolation_threshold_in_seconds := 0.25,
          jack_auto_client_open_interval := 1\<rparr>\<rparr>"

text \<open>The names used when the settings gave none.\<close>

definition jack_init_names :: "jack_state \<Rightarrow> jack_state" where
  "jack_init_names s =
     (let s = (if jack_client_name (config s) = None
               then s\<lparr>config := (config s)\<lparr>jack_client_name := Some ''Shairport Sync''\<rparr>\<rparr>
               else s);
          s = (if jack_left_channel_name (config s) = None
               then s\<lparr>config := (config s)\<lparr>jack_left_channel_name := Some ''left''\<rparr>\<rparr>
               else s);
          s = (if jack_right_channel_name (config s) = None
               then s\<lparr>config := (config s)\<lparr>jack_right_channel_name := Some ''right''\<rparr>\<rparr>
               else s)
      in s)"

text \<open>The ring, once \<open>malloc\<close> has returned the address \<open>p\<close>, and the closed client.\<close>

definition jack_init_buffer :: "nat \<Rightarrow> jack_state \<Rightarrow> jack_state" where
  "jack_init_buffer p s =
     (let s = s\<lparr>audio_lmb := p\<rparr>;
          s = s\<lparr>audio_toq := audio_lmb s, audio_eoq := audio_lmb s\<rparr>;
          s = s\<lparr>audio_umb := audio_lmb s + buffer_size\<rparr>;
          s = s\<lparr>audio_occupancy := 0\<rparr>;
          s = s\<lparr>client_is_open := 0\<rparr>
      in s)"

text \<open>
  \<open>parse_general_audio_options\<close>, which is not in this file, is a parameter: the change
  it makes to \<open>config\<close>. \<open>renders\<close> is the verbosity of \<open>debug\<close>, as above.
  \<open>malloc_buffer\<close> is what \<open>malloc\<close> returns for the ring and \<open>malloc_thread\<close> tells
  whether the allocation of the thread handle succeeds. \<open>die\<close> ends the program: its
  result is \<open>Inl\<close>. The scanner thread, once created, runs beside the caller and is not
  run here.
\<close>

definition jack_init ::
  "(nat \<Rightarrow> bool) \<Rightarrow> (config_t \<Rightarrow> config_t) \<Rightarrow> nat option \<Rightarrow> bool \<Rightarrow> jack_server
     \<Rightarrow> jack_state \<Rightarrow> fatal + (int \<times> jack_state)" where
  "jack_init renders parse_general_audio_options malloc_buffer malloc_thread srv s =
     (let s = jack_init_defaults s;
          s = s\<lparr>config := parse_general_audio_options (config s)\<rparr>;
          r = (case cfg (config s) of
                 Some f \<Rightarrow> jack_init_settings renders f s
               | None \<Rightarrow> Inr s)
      in case r of
           Inl e \<Rightarrow> Inl e
         | Inr s \<Rightarrow>
            (let s = jack_init_names s
             in case malloc_buffer of
                  None \<Rightarrow> Inl (Die_cannot_allocate buffer_size)
                | Some p \<Rightarrow>
                   (let s = jack_init_buffer p s
                    in if jack_auto_client_open_interval (config s) \<noteq> 0
                       then
                         (if \<not> malloc_thread
                          then Inr (0, snd (jack_client_open_if_needed
                                              (debug 1 No_space_for_scanner_thread s) srv))
                          else Inr (0, s\<lparr>open_client_if_necessary_thread := True\<rparr>))
                       else Inr (0, snd (jack_client_open_if_needed s srv)))))"

subsection \<open>The parts of the callback\<close>

text \<open>The frames one call of the callback takes out of the ring.\<close>

definition frames_delivered :: "jack_state \<Rightarrow> jack_nframes_t \<Rightarrow> nat" where
  "frames_delivered s nframes = min (audio_occupancy s) (unat nframes)"

text \<open>
  One port buffer after the two branches of the callback that convert the frames, before
  the silence is filled in: \<open>f\<close> is the number of frames transferred.
\<close>

definition transferred ::
  "(real \<Rightarrow> real) \<Rightarrow> jack_state \<Rightarrow> (nat \<Rightarrow> real) \<Rightarrow> nat \<Rightarrow> ift_type \<Rightarrow> (nat \<Rightarrow> real)" where
  "transferred rnd s out f side =
     (if f * 2 * 2 \<le> ptr_diff (audio_umb s) (audio_toq s)
      then deinterleave_and_convert_stream rnd (memory s) (audio_toq s) out 0
             (nframes_of_size_t f) side
      else deinterleave_and_convert_stream rnd (memory s) (audio_lmb s)
             (if ptr_diff (audio_umb s) (audio_toq s) div (2 * 2) \<noteq> 0
              then deinterleave_and_convert_stream rnd (memory s) (audio_toq s) out 0
                     (nframes_of_size_t (ptr_diff (audio_umb s) (audio_toq s) div (2 * 2))) side
              else out)
             (ptr_diff (audio_umb s) (audio_toq s) div (2 * 2))
             (nframes_of_size_t (f - ptr_diff (audio_umb s) (audio_toq s) div (2 * 2))) side)"

subsection \<open>The ring as a queue of bytes\<close>

text \<open>
  The state of the ring that the functions keep when no push exceeds the free space: the
  block is \<open>buffer_size\<close> bytes from \<open>audio_lmb\<close>, both cursors lie in it or at its end,
  on frame boundaries, the occupancy is at most the capacity, and the write cursor is
  the read cursor moved by the queued bytes, around the ring.
\<close>

definition ring_ok :: "jack_state \<Rightarrow> bool" where
  "ring_ok s =
     (audio_umb s = audio_lmb s + buffer_size \<and> audio_umb s < 2 ^ 64
      \<and> audio_lmb s \<le> audio_toq s \<and> audio_toq s \<le> audio_umb s
      \<and> audio_lmb s \<le> audio_eoq s \<and> audio_eoq s \<le> audio_umb s
      \<and> 4 dvd (audio_toq s - audio_lmb s) \<and> 4 dvd (audio_eoq s - audio_lmb s)
      \<and> audio_occupancy s * 4 \<le> buffer_size
      \<and> (audio_eoq s - audio_lmb s) mod buffer_size
          = (audio_toq s - audio_lmb s + audio_occupancy s * 4) mod buffer_size)"

text \<open>The address of the \<open>i\<close>-th byte after the read cursor, around the ring.\<close>

definition ring_address :: "jack_state \<Rightarrow> nat \<Rightarrow> nat" where
  "ring_address s i = audio_lmb s + (audio_toq s - audio_lmb s + i) mod buffer_size"

text \<open>The bytes queued and not yet read, oldest first.\<close>

definition queued_bytes :: "jack_state \<Rightarrow> byte list" where
  "queued_bytes s = map (\<lambda>i. memory s (ring_address s i)) [0..<audio_occupancy s * 4]"

text \<open>
  The left or right sample of frame \<open>j\<close> of a list of interleaved bytes, and the
  conversions of the first \<open>n\<close> frames of the list.
\<close>

definition frame_sample :: "byte list \<Rightarrow> nat \<Rightarrow> ift_type \<Rightarrow> short" where
  "frame_sample bs j side =
     (case side of
        IFT_frame_left_sample \<Rightarrow> word_cat (bs ! (4 * j + 1)) (bs ! (4 * j))
      | IFT_frame_right_sample \<Rightarrow> word_cat (bs ! (4 * j + 3)) (bs ! (4 * j + 2)))"

definition converted_frames :: "(real \<Rightarrow> real) \<Rightarrow> byte list \<Rightarrow> nat \<Rightarrow> ift_type \<Rightarrow> real list" where
  "converted_frames rnd bs n side =
     map (\<lambda>j. converted_value rnd (frame_sample bs j side)) [0..<n]"

text \<open>
  The two copies of \<open>play\<close>, or the single one, seen from the ring: \<open>e\<close> is the offset
  of the write cursor in the block, \<open>b\<close> the number of bytes pushed.
\<close>

definition pushed :: "(nat \<Rightarrow> byte) \<Rightarrow> nat \<Rightarrow> nat \<Rightarrow> nat \<Rightarrow> (nat \<Rightarrow> byte) \<Rightarrow> nat \<Rightarrow> (nat \<Rightarrow> byte)" where
  "pushed m l c e buf b =
     (if b \<le> c - e then memcpy m (l + e) buf b
      else memcpy (memcpy m (l + e) buf (c - e)) l (\<lambda>i. buf (c - e + i)) (b - (c - e)))"

text \<open>The offset in bytes of the left or right sample in its frame.\<close>

definition side_offset :: "ift_type \<Rightarrow> nat" where
  "side_offset side = (if side = IFT_frame_right_sample then 2 else 0)"

subsection \<open>Sequences of pushes and pulls\<close>

datatype ring_op = Push "nat \<Rightarrow> byte" "32 word" | Pull jack_env jack_nframes_t

fun apply_op :: "(real \<Rightarrow> real) \<Rightarrow> jack_state \<Rightarrow> ring_op \<Rightarrow> jack_state" where
  "apply_op rnd s (Push buf samples) = snd (play s buf samples)"
| "apply_op rnd s (Pull env nframes) = snd (snd (snd (jack_stream_write_cb rnd s env nframes)))"

fun run :: "(real \<Rightarrow> real) \<Rightarrow> jack_state \<Rightarrow> ring_op list \<Rightarrow> jack_state" where
  "run rnd s [] = s"
| "run rnd s (x # xs) = run rnd (apply_op rnd s x) xs"

text \<open>A push fits when its byte count is at most the free space; a pull always does.\<close>

fun fits :: "jack_state \<Rightarrow> ring_op \<Rightarrow> bool" where
  "fits s (Push buf samples) =
     (0 \<le> sint samples \<and> sint samples * 4 \<le> int buffer_size - int (audio_occupancy s) * 4)"
| "fits s (Pull env nframes) = True"

fun all_fit :: "(real \<Rightarrow> real) \<Rightarrow> jack_state \<Rightarrow> ring_op list \<Rightarrow> bool" where
  "all_fit rnd s [] = True"
| "all_fit rnd s (x # xs) = (fits s x \<and> all_fit rnd (apply_op rnd s x) xs)"

subsection \<open>The delay as the specification words it\<close>

text \<open>
  The delay estimate over the integers, as the specification describes it: the base
  latency is the average of the minimum and maximum of the left port, or of the right
  port when that of the left is zero; the frames processed are the elapsed fixed-point
  time multiplied by 44100; the delay is base latency plus occupancy minus frames
  processed. Averages and frame counts are whole numbers, rounded down.
\<close>

definition spec_average_latency :: "jack_latency_range_t \<Rightarrow> int" where
  "spec_average_latency r = (uint (range_min r) + uint (range_max r)) div 2"

definition spec_base_latency :: "jack_state \<Rightarrow> int" where
  "spec_base_latency s =
     (if spec_average_latency (latest_left_latency_range s) = 0
      then spec_average_latency (latest_right_latency_range s)
      else spec_average_latency (latest_left_latency_range s))"

definition spec_frames_processed :: "jack_state \<Rightarrow> int64_t \<Rightarrow> int" where
  "spec_frames_processed s time_now =
     ((sint time_now - sint (time_of_latest_transfer s)) * 44100) div 2 ^ 32"

definition spec_delay :: "jack_state \<Rightarrow> int64_t \<Rightarrow> int" where
  "spec_delay s time_now =
     spec_base_latency s + int (audio_occupancy s) - spec_frames_processed s time_now"

text \<open>
  No machine operation of \<open>jack_delay\<close> wraps around: the two sums of 32-bit latencies,
  the 64-bit product of the elapsed time and 44100, and the final sum stored in a
  \<open>long\<close>.
\<close>

definition delay_in_range :: "jack_state \<Rightarrow> int64_t \<Rightarrow> bool" where
  "delay_in_range s time_now =
     (uint (range_min (latest_left_latency_range s))
        + uint (range_max (latest_left_latency_range s)) < 2 ^ 32
      \<and> uint (range_min (latest_right_latency_range s))
        + uint (range_max (latest_right_latency_range s)) < 2 ^ 32
      \<and> - (2 ^ 63) \<le> (sint time_now - sint (time_of_latest_transfer s)) * 44100
      \<and> (sint time_now - sint (time_of_latest_transfer s)) * 44100 < 2 ^ 63
      \<and> - (2 ^ 63) \<le> spec_delay s time_now
      \<and> spec_delay s time_now < 2 ^ 63)"

subsection \<open>Concrete states\<close>

text \<open>The globals as the C runtime initialises them: zero, null and empty.\<close>

definition zero_config :: config_t where
  "zero_config =
     \<lparr>cfg = None, audio_backend_latency_offset = 0,
      audio_backend_buffer_desired_length = 0,
      audio_backend_buffer_interpolation_threshold_in_seconds = 0,
      jack_client_name = None, jack_left_channel_name = None,
      jack_right_channel_name = None, jack_auto_client_open_interval = 0,
      jack_auto_client_disconnect = 0\<rparr>"

definition zero_range :: jack_latency_range_t where
  "zero_range = \<lparr>range_min = 0, range_max = 0\<rparr>"

definition zero_state :: jack_state where
  "zero_state =
     \<lparr>memory = (\<lambda>a. 0), audio_lmb = 0, audio_umb = 0, audio_toq = 0, audio_eoq = 0,
      audio_occupancy = 0, open_client_if_necessary_thread = False,
      left_port = None, right_port = None, client_is_open = 0, client = None,
      sample_rate = 0, latest_left_latency_range = zero_range,
      latest_right_latency_range = zero_range, time_of_latest_transfer = 0,
      config = zero_config, log_calls = [], jack_calls = []\<rparr>"

text \<open>
  A state whose left port reports a latency of \<open>2^31\<close> frames as minimum and maximum,
  and whose right port reports 5 frames.
\<close>

definition wide_latency_state :: jack_state where
  "wide_latency_state =
     zero_state\<lparr>latest_left_latency_range := \<lparr>range_min = 2147483648, range_max = 2147483648\<rparr>,
                latest_right_latency_range := \<lparr>range_min = 5, range_max = 5\<rparr>\<rparr>"

text \<open>A state with 1000 frames queued, port latencies 256 to 512 and a transfer at time 0.\<close>

definition playing_state :: jack_state where
  "playing_state =
     zero_state\<lparr>audio_occupancy := 1000,
                latest_left_latency_range := \<lparr>range_min = 256, range_max = 512\<rparr>,
                latest_right_latency_range := \<lparr>range_min = 256, range_max = 512\<rparr>\<rparr>"

text \<open>A JACK server that runs at 48000 frames per second, and one that runs at 44100.\<close>

definition server_48000 :: jack_server where
  "server_48000 =
     \<lparr>jack_client_open_result = Some 1, jack_port_register_left_result = Some 2,
      jack_port_register_right_result = Some 3, jack_get_sample_rate_result = 48000,
      jack_set_latency_callback_result = 0, jack_activate_result = 0\<rparr>"

definition server_44100 :: jack_server where
  "server_44100 = server_48000\<lparr>jack_get_sample_rate_result := 44100\<rparr>"

text \<open>A settings file that asks for a scan every 301 seconds, and the globals holding it.\<close>

definition settings_301 :: settings where
  "settings_301 =
     \<lparr>lookup_client_name = None, lookup_left_channel_name = None,
      lookup_right_channel_name = None, lookup_auto_client_open_interval = Some 301,
      lookup_auto_client_disconnect = None\<rparr>"

definition state_with_settings_301 :: jack_state where
  "state_with_settings_301 = zero_state\<lparr>config := zero_config\<lparr>cfg := Some settings_301\<rparr>\<rparr>"

text \<open>A logger that formats the calls of a level up to its verbosity.\<close>

definition shows_up_to :: "nat \<Rightarrow> nat \<Rightarrow> bool" where
  "shows_up_to debuglev level = (level \<le> debuglev)"

definition parse_nothing :: "config_t \<Rightarrow> config_t" where
  "parse_nothing c = c"

text \<open>The globals after \<open>jack_init\<close> has allocated the ring at address 4096.\<close>

definition fresh_state :: jack_state where
  "fresh_state = jack_init_buffer 4096 zero_state"

text \<open>
  What a callback may find: port buffers holding old values, latencies of 256 to 512
  frames on both ports, and the clock at one second.
\<close>

definition old_port_buffer :: "nat \<Rightarrow> real" where
  "old_port_buffer i = 1"

definition example_env :: jack_env where
  "example_env =
     \<lparr>left_port_buffer = old_port_buffer, right_port_buffer = old_port_buffer,
      left_port_latency_range = \<lparr>range_min = 256, range_max = 512\<rparr>,
      right_port_latency_range = \<lparr>range_min = 256, range_max = 512\<rparr>,
      absolute_time_in_fp = 4294967296\<rparr>"

text \<open>A rounding that changes nothing, for the concrete runs.\<close>

definition no_rounding :: "real \<Rightarrow> real" where
  "no_rounding x = x"

text \<open>Two caller buffers, all zeros and all ones, and the ring filled to capacity.\<close>

definition silence_buf :: "nat \<Rightarrow> byte" where
  "silence_buf i = 0"

definition ones_buf :: "nat \<Rightarrow> byte" where
  "ones_buf i = 1"

definition full_state :: jack_state where
  "full_state = snd (play fresh_state silence_buf 176400)"

text \<open>
  A ring in order whose two cursors are one frame before the end of the block, and a
  caller buffer whose bytes count up from 0.
\<close>

definition near_end_state :: jack_state where
  "near_end_state =
     fresh_state\<lparr>audio_toq := 4096 + buffer_size - 4, audio_eoq := 4096 + buffer_size - 4\<rparr>"

definition count_buf :: "nat \<Rightarrow> byte" where
  "count_buf i = of_nat i"

text \<open>The ring after one frame of that buffer was pushed at the end of the block.\<close>

definition one_frame_state :: jack_state where
  "one_frame_state = snd (play near_end_state count_buf 1)"

text \<open>
  A memory whose first two frames hold the samples 32767 and -32768, then 0 and -16384,
  in little-endian order.
\<close>

definition extreme_memory :: "nat \<Rightarrow> byte" where
  "extreme_memory a =
     (if a = 0 then 255 else if a = 1 then 127 else if a = 3 then 128
      else if a = 7 then 192 else 0)"

section \<open>Properties\<close>

subsection \<open>Sample conversion\<close>

lemma sint_short_range: "- 32768 \<le> sint (x :: short) \<and> sint x \<le> 32767"
  using sint_range_size [of x] by (simp add: word_size)

text \<open>
  The conversion of one sample: for every rounding that is monotone and exact at \<open>-1\<close>,
  \<open>0\<close> and \<open>1\<close> the value lies in \<open>[-1, 1]\<close> and the extremes are reached.
\<close>

lemma converted_value_range:
  assumes mono: "\<And>x y. x \<le> y \<Longrightarrow> rnd x \<le> rnd y"
    and r0: "rnd 0 = 0" and r1: "rnd 1 = 1" and rm1: "rnd (- 1) = - 1"
  shows "(sint sample \<ge> 0 \<longrightarrow>
            converted_value rnd sample = rnd (real_of_int (sint sample) / 32767))
       \<and> (sint sample < 0 \<longrightarrow>
            converted_value rnd sample = rnd (real_of_int (sint sample) / \<bar>- 32768\<bar>))
       \<and> - 1 \<le> converted_value rnd sample \<and> converted_value rnd sample \<le> 1
       \<and> converted_value rnd 32767 = 1
       \<and> converted_value rnd (- 32768) = - 1
       \<and> converted_value rnd 0 = 0"
proof -
  define r where "r = real_of_int (sint sample)"
  have "real_of_int (- 32768) \<le> r" and "r \<le> real_of_int 32767"
    unfolding r_def using sint_short_range [of sample] by (simp_all only: of_int_le_iff)
  then have rng: "- 32768 \<le> r" "r \<le> 32767"
    by simp_all
  have sgn: "(sint sample \<ge> 0) = (0 \<le> r)"
    unfolding r_def by (simp only: of_int_0_le_iff)
  have pos: "0 \<le> r \<Longrightarrow> converted_value rnd sample = rnd (r / 32767)"
    unfolding converted_value_def SHRT_MAX_def sgn r_def [symmetric] by simp
  have neg: "\<not> 0 \<le> r \<Longrightarrow> converted_value rnd sample = rnd (r / 32768)"
    unfolding converted_value_def SHRT_MIN_def sgn r_def [symmetric] by simp
  have bounds: "- 1 \<le> converted_value rnd sample \<and> converted_value rnd sample \<le> 1"
  proof (cases "0 \<le> r")
    case True
    then have "0 \<le> r / 32767" and "r / 32767 \<le> 1"
      using rng by simp_all
    then have "rnd 0 \<le> rnd (r / 32767)" and "rnd (r / 32767) \<le> rnd 1"
      by (auto intro: mono)
    then show ?thesis using pos [OF True] r0 r1 by simp
  next
    case False
    then have "- 1 \<le> r / 32768" and "r / 32768 \<le> 0"
      using rng by simp_all
    then have "rnd (- 1) \<le> rnd (r / 32768)" and "rnd (r / 32768) \<le> rnd 0"
      by (auto intro: mono)
    then show ?thesis using neg [OF False] r0 rm1 by simp
  qed
  have top: "converted_value rnd 32767 = 1"
    by (simp add: converted_value_def SHRT_MAX_def r1)
  have bot: "converted_value rnd (- 32768) = - 1"
    by (simp add: converted_value_def SHRT_MIN_def rm1)
  have zero: "converted_value rnd 0 = 0"
    by (simp add: converted_value_def r0)
  have c1: "sint sample \<ge> 0 \<longrightarrow>
      converted_value rnd sample = rnd (real_of_int (sint sample) / 32767)"
  proof
    assume "sint sample \<ge> 0"
    then have "0 \<le> r" using sgn by blast
    from pos [OF this] show
      "converted_value rnd sample = rnd (real_of_int (sint sample) / 32767)"
      by (simp only: r_def)
  qed
  have abs: "\<bar>- 32768 :: real\<bar> = 32768"
    by simp
  have c2: "sint sample < 0 \<longrightarrow>
      converted_value rnd sample = rnd (real_of_int (sint sample) / \<bar>- 32768\<bar>)"
  proof
    assume "sint sample < 0"
    then have "\<not> sint sample \<ge> 0" by linarith
    then have "\<not> 0 \<le> r" using sgn by blast
    from neg [OF this] show
      "converted_value rnd sample = rnd (real_of_int (sint sample) / \<bar>- 32768\<bar>)"
      by (simp only: r_def abs)
  qed
  show ?thesis using c1 c2 bounds top bot zero by blast
qed

lemma convert_frames_at:
  "convert_frames rnd m ifp out fp n j =
     (if fp \<le> j \<and> j < fp + n
      then converted_value rnd (read_short m (ifp + 4 * (j - fp))) else out j)"
proof (induction n arbitrary: ifp out fp)
  case 0
  then show ?case by simp
next
  case (Suc n)
  let ?v = "converted_value rnd (read_short m ifp)"
  have step: "convert_frames rnd m ifp out fp (Suc n) j =
      (if fp + 1 \<le> j \<and> j < fp + 1 + n
       then converted_value rnd (read_short m (ifp + 2 + 2 + 4 * (j - (fp + 1))))
       else (out(fp := ?v)) j)"
    by (simp only: convert_frames.simps Suc.IH)
  show ?case
  proof (cases "fp < j")
    case True
    then have e: "ifp + 2 + 2 + 4 * (j - (fp + 1)) = ifp + 4 * (j - fp)"
      by simp
    show ?thesis
      unfolding step e using True by auto
  next
    case False
    then show ?thesis
      unfolding step by auto
  qed
qed

text \<open>
  C5. \<open>deinterleave_and_convert_stream\<close> stores, at each of the \<open>number_of_frames\<close>
  places of the port buffer from \<open>fp\<close> on, the conversion of the sample it reads for
  that frame (the left or right \<open>short\<close> of the frame, four bytes further for each
  frame) and leaves every other place as it was. A sample that is not negative is
  divided by \<open>SHRT_MAX\<close>, a negative one by the magnitude of \<open>SHRT_MIN\<close> (the code
  negates numerator and denominator). For every rounding that is monotone and exact at
  \<open>-1\<close>, \<open>0\<close> and \<open>1\<close> (as rounding to nearest is), every value stored lies in
  \<open>[-1, 1]\<close>, sample \<open>32767\<close> gives \<open>1\<close>, sample \<open>-32768\<close> gives \<open>-1\<close> and sample
  \<open>0\<close> gives \<open>0\<close>.
\<close>

theorem deinterleave_and_convert_stream_stores:
  assumes mono: "\<And>x y. x \<le> y \<Longrightarrow> rnd x \<le> rnd y"
    and r0: "rnd 0 = 0" and r1: "rnd 1 = 1" and rm1: "rnd (- 1) = - 1"
  shows "(\<forall>j. fp \<le> j \<and> j < fp + number_of_frames \<longrightarrow>
            deinterleave_and_convert_stream rnd m interleaved_frames out fp number_of_frames
                side j
              = converted_value rnd
                  (read_short m (interleaved_frames + side_offset side + 4 * (j - fp)))
            \<and> - 1 \<le> deinterleave_and_convert_stream rnd m interleaved_frames out fp
                        number_of_frames side j
            \<and> deinterleave_and_convert_stream rnd m interleaved_frames out fp
                  number_of_frames side j \<le> 1)
       \<and> (\<forall>j. j < fp \<or> fp + number_of_frames \<le> j \<longrightarrow>
            deinterleave_and_convert_stream rnd m interleaved_frames out fp number_of_frames
                side j = out j)
       \<and> (sint sample \<ge> 0 \<longrightarrow>
            converted_value rnd sample = rnd (real_of_int (sint sample) / 32767))
       \<and> (sint sample < 0 \<longrightarrow>
            converted_value rnd sample = rnd (real_of_int (sint sample) / \<bar>- 32768\<bar>))
       \<and> - 1 \<le> converted_value rnd sample \<and> converted_value rnd sample \<le> 1
       \<and> converted_value rnd 32767 = 1
       \<and> converted_value rnd (- 32768) = - 1
       \<and> converted_value rnd 0 = 0"
proof -
  let ?d = "deinterleave_and_convert_stream rnd m interleaved_frames out fp number_of_frames side"
  have base: "(if side = IFT_frame_right_sample then interleaved_frames + 2
               else interleaved_frames) = interleaved_frames + side_offset side"
    by (simp add: side_offset_def)
  have at: "?d j = (if fp \<le> j \<and> j < fp + number_of_frames
       then converted_value rnd
              (read_short m (interleaved_frames + side_offset side + 4 * (j - fp)))
       else out j)" for j
    unfolding deinterleave_and_convert_stream_def base by (rule convert_frames_at)
  have range: "- 1 \<le> converted_value rnd x \<and> converted_value rnd x \<le> 1" for x
    using converted_value_range [OF mono r0 r1 rm1, of x] by blast
  have stored: "\<forall>j. fp \<le> j \<and> j < fp + number_of_frames \<longrightarrow>
      ?d j = converted_value rnd
               (read_short m (interleaved_frames + side_offset side + 4 * (j - fp)))
      \<and> - 1 \<le> ?d j \<and> ?d j \<le> 1"
    using range by (simp add: at)
  have kept: "\<forall>j. j < fp \<or> fp + number_of_frames \<le> j \<longrightarrow> ?d j = out j"
    by (auto simp add: at)
  show ?thesis
    using stored kept converted_value_range [OF mono r0 r1 rm1, of sample] by blast
qed

theorem deinterleave_and_convert_stream_stores_witness:
  "deinterleave_and_convert_stream no_rounding extreme_memory 0 old_port_buffer 0 2
     IFT_frame_left_sample 0 = 1
   \<and> deinterleave_and_convert_stream no_rounding extreme_memory 0 old_port_buffer 0 2
     IFT_frame_right_sample 0 = - 1
   \<and> deinterleave_and_convert_stream no_rounding extreme_memory 0 old_port_buffer 0 2
     IFT_frame_left_sample 1 = 0
   \<and> deinterleave_and_convert_stream no_rounding extreme_memory 0 old_port_buffer 0 2
     IFT_frame_right_sample 1 = - (1 / 2)
   \<and> deinterleave_and_convert_stream no_rounding extreme_memory 0 old_port_buffer 0 2
     IFT_frame_left_sample 2 = old_port_buffer 2
   \<and> converted_value no_rounding 32767 = 1
   \<and> converted_value no_rounding (- 32768) = - 1
   \<and> converted_value no_rounding 0 = 0"
proof -
  have h: "\<And>x y :: real. x \<le> y \<Longrightarrow> no_rounding x \<le> no_rounding y"
    "no_rounding 0 = 0" "no_rounding 1 = 1" "no_rounding (- 1) = - 1"
    by (simp_all add: no_rounding_def)
  note l = deinterleave_and_convert_stream_stores [of no_rounding, OF h,
      where fp = 0 and number_of_frames = 2 and m = extreme_memory and interleaved_frames = 0
        and out = old_port_buffer and side = IFT_frame_left_sample and sample = 0]
  note r = deinterleave_and_convert_stream_stores [of no_rounding, OF h,
      where fp = 0 and number_of_frames = 2 and m = extreme_memory and interleaved_frames = 0
        and out = old_port_buffer and side = IFT_frame_right_sample and sample = 0]
  have v: "converted_value no_rounding (read_short extreme_memory 0) = 1"
    "converted_value no_rounding (read_short extreme_memory 2) = - 1"
    "converted_value no_rounding (read_short extreme_memory 4) = 0"
    "converted_value no_rounding (read_short extreme_memory 6) = - (1 / 2)"
    by (simp_all add: converted_value_def read_short_def extreme_memory_def word_cat_eq
        SHRT_MAX_def SHRT_MIN_def no_rounding_def)
  have a: "0 + side_offset IFT_frame_left_sample + 4 * (0 - 0) = (0 :: nat)"
    "0 + side_offset IFT_frame_right_sample + 4 * (0 - 0) = (2 :: nat)"
    "0 + side_offset IFT_frame_left_sample + 4 * (1 - 0) = (4 :: nat)"
    "0 + side_offset IFT_frame_right_sample + 4 * (1 - 0) = (6 :: nat)"
    by (simp_all add: side_offset_def)
  have l0: "deinterleave_and_convert_stream no_rounding extreme_memory 0 old_port_buffer 0 2
      IFT_frame_left_sample 0 = 1"
  proof -
    have "(0 :: nat) \<le> 0 \<and> (0 :: nat) < 0 + 2"
      by simp
    with l have "deinterleave_and_convert_stream no_rounding extreme_memory 0 old_port_buffer 0 2
        IFT_frame_left_sample 0
      = converted_value no_rounding
          (read_short extreme_memory (0 + side_offset IFT_frame_left_sample + 4 * (0 - 0)))"
      by blast
    then show ?thesis
      unfolding a v .
  qed
  have r0: "deinterleave_and_convert_stream no_rounding extreme_memory 0 old_port_buffer 0 2
      IFT_frame_right_sample 0 = - 1"
  proof -
    have "(0 :: nat) \<le> 0 \<and> (0 :: nat) < 0 + 2"
      by simp
    with r have "deinterleave_and_convert_stream no_rounding extreme_memory 0 old_port_buffer 0 2
        IFT_frame_right_sample 0
      = converted_value no_rounding
          (read_short extreme_memory (0 + side_offset IFT_frame_right_sample + 4 * (0 - 0)))"
      by blast
    then show ?thesis
      unfolding a v .
  qed
  have l1: "deinterleave_and_convert_stream no_rounding extreme_memory 0 old_port_buffer 0 2
      IFT_frame_left_sample 1 = 0"
  proof -
    have "(0 :: nat) \<le> 1 \<and> (1 :: nat) < 0 + 2"
      by simp
    with l have "deinterleave_and_convert_stream no_rounding extreme_memory 0 old_port_buffer 0 2
        IFT_frame_left_sample 1
      = converted_value no_rounding
          (read_short extreme_memory (0 + side_offset IFT_frame_left_sample + 4 * (1 - 0)))"
      by blast
    then show ?thesis
      unfolding a v .
  qed
  have r1: "deinterleave_and_convert_stream no_rounding extreme_memory 0 old_port_buffer 0 2
      IFT_frame_right_sample 1 = - (1 / 2)"
  proof -
    have "(0 :: nat) \<le> 1 \<and> (1 :: nat) < 0 + 2"
      by simp
    with r have "deinterleave_and_convert_stream no_rounding extreme_memory 0 old_port_buffer 0 2
        IFT_frame_right_sample 1
      = converted_value no_rounding
          (read_short extreme_memory (0 + side_offset IFT_frame_right_sample + 4 * (1 - 0)))"
      by blast
    then show ?thesis
      unfolding a v .
  qed
  have l2: "deinterleave_and_convert_stream no_rounding extreme_memory 0 old_port_buffer 0 2
      IFT_frame_left_sample 2 = old_port_buffer 2"
  proof -
    have "(2 :: nat) < 0 \<or> (0 :: nat) + 2 \<le> 2"
      by simp
    with l show ?thesis
      by blast
  qed
  have s: "converted_value no_rounding 32767 = 1" "converted_value no_rounding (- 32768) = - 1"
    "converted_value no_rounding 0 = 0"
    using l by blast+
  show ?thesis
    using l0 r0 l1 r1 l2 s by blast
qed

subsection \<open>The delay estimate\<close>

lemma average_in_jack_nframes:
  "uint a + uint b < 2 ^ 32 \<Longrightarrow> uint ((a + b) div 2 :: 32 word) = (uint a + uint b) div 2"
  by (simp add: uint_div uint_word_ariths take_bit_int_eq_self)

lemma sint_frames_processed:
  fixes a b :: "64 word"
  assumes "- (2 ^ 63) \<le> (sint a - sint b) * 44100" "(sint a - sint b) * 44100 < 2 ^ 63"
  shows "sint (signed_drop_bit 32 ((a - b) * 44100)) = ((sint a - sint b) * 44100) div 2 ^ 32"
proof -
  have r: "- (2 ^ 63) \<le> sint a - sint b" "sint a - sint b < 2 ^ 63"
    using assms by (simp_all add: algebra_simps)
  have d: "sint (a - b) = sint a - sint b"
    using r by (simp add: sint_word_ariths signed_take_bit_int_eq_self)
  have s: "sint (44100 :: 64 word) = 44100"
    by simp
  have "sint ((a - b) * 44100) = signed_take_bit 63 (sint (a - b) * sint (44100 :: 64 word))"
    by (simp only: sint_word_ariths) simp
  also have "\<dots> = (sint a - sint b) * 44100"
    using assms by (simp only: d s signed_take_bit_int_eq_self)
  finally show ?thesis
    by (simp add: sint_signed_drop_bit_eq drop_bit_eq_div)
qed

lemma jack_nframes_zero_iff: "(w = 0) = (uint (w :: 32 word) = 0)"
  by (simp add: word_uint_eq_iff)

text \<open>Where nothing wraps, the machine computation is the integer formula.\<close>

lemma jack_delay_in_range:
  assumes "delay_in_range s time_now"
  shows "jack_delay s time_now = (0, spec_delay s time_now)"
proof -
  let ?l = "latest_left_latency_range s" and ?r = "latest_right_latency_range s"
  let ?bl = "(range_min ?l + range_max ?l) div 2"
  let ?br = "(range_min ?r + range_max ?r) div 2"
  let ?b = "if ?bl = 0 then ?br else ?bl"
  let ?f = "signed_drop_bit 32 ((time_now - time_of_latest_transfer s) * 44100)"
  have l: "uint ?bl = spec_average_latency ?l" and r: "uint ?br = spec_average_latency ?r"
    using assms
    by (simp_all add: delay_in_range_def spec_average_latency_def average_in_jack_nframes)
  have b: "uint ?b = spec_base_latency s"
    using l r by (simp add: jack_nframes_zero_iff [of ?bl] spec_base_latency_def)
  have f: "sint ?f = spec_frames_processed s time_now"
    unfolding spec_frames_processed_def using assms
    by (intro sint_frames_processed) (simp_all add: delay_in_range_def)
  have w: "(ucast ?b :: 64 word) + word_of_nat (audio_occupancy s) - ?f
           = word_of_int (uint ?b + int (audio_occupancy s) - sint ?f)"
    by simp
  have "sint ((ucast ?b :: 64 word) + word_of_nat (audio_occupancy s) - ?f)
        = spec_delay s time_now"
  proof -
    have "- (2 ^ 63) \<le> uint ?b + int (audio_occupancy s) - sint ?f"
      and "uint ?b + int (audio_occupancy s) - sint ?f < 2 ^ 63"
      using assms unfolding b f by (simp_all add: spec_delay_def delay_in_range_def)
    then have "signed_take_bit 63 (uint ?b + int (audio_occupancy s) - sint ?f)
               = uint ?b + int (audio_occupancy s) - sint ?f"
      by (rule signed_take_bit_int_eq_self)
    then have "sint (word_of_int (uint ?b + int (audio_occupancy s) - sint ?f) :: 64 word)
               = uint ?b + int (audio_occupancy s) - sint ?f"
      by (simp only: sint_sbintrunc') simp
    then show ?thesis
      unfolding w b f by (simp add: spec_delay_def)
  qed
  then show ?thesis
    by (simp add: jack_delay_def Let_def)
qed

lemma delay_in_range_playing_state:
  "delay_in_range playing_state 4294967296" "delay_in_range playing_state 8589934592"
  by (simp_all add: delay_in_range_def playing_state_def zero_state_def zero_range_def
      spec_delay_def spec_base_latency_def spec_average_latency_def spec_frames_processed_def)

text \<open>
  C4, as stated, fails where the 32-bit sum of the left minimum and maximum wraps
  around: with both at \<open>2^31\<close> frames their average is \<open>2^31\<close>, not zero, yet the
  code computes zero, takes the right port's average 5 and reports a delay of 5.
\<close>

theorem jack_delay_average_wraps:
  "jack_delay wide_latency_state 0 = (0, 5) \<and> spec_delay wide_latency_state 0 = 2147483648"
  by (simp add: jack_delay_def wide_latency_state_def zero_state_def spec_delay_def
      spec_base_latency_def spec_average_latency_def spec_frames_processed_def)

text \<open>
  C4, amended. For every call to \<open>jack_delay\<close> in which no machine operation wraps
  around, the call returns 0 and the delay reported is base latency plus occupancy at
  the call minus the frames processed since the last transfer, where the base latency
  is the average (rounded down) of the left port's minimum and maximum, replaced by the
  right port's when it is zero, and the frames processed are the elapsed 32.32
  fixed-point time multiplied by 44100, in whole frames.
\<close>

theorem jack_delay_formula:
  assumes "delay_in_range s time_now"
  shows "jack_delay s time_now =
           (0, (if (uint (range_min (latest_left_latency_range s))
                    + uint (range_max (latest_left_latency_range s))) div 2 = 0
                then (uint (range_min (latest_right_latency_range s))
                      + uint (range_max (latest_right_latency_range s))) div 2
                else (uint (range_min (latest_left_latency_range s))
                      + uint (range_max (latest_left_latency_range s))) div 2)
               + int (audio_occupancy s)
               - ((sint time_now - sint (time_of_latest_transfer s)) * 44100) div 2 ^ 32)"
  using jack_delay_in_range [OF assms]
  by (simp add: spec_delay_def spec_base_latency_def spec_average_latency_def
      spec_frames_processed_def)

theorem jack_delay_formula_witness:
  "delay_in_range playing_state 4294967296
   \<and> jack_delay playing_state 4294967296 = (0, 384 + 1000 - 44100)"
  using jack_delay_formula [OF delay_in_range_playing_state(1)]
    delay_in_range_playing_state(1)
  by (simp add: playing_state_def zero_state_def)


text \<open>
  C7, as stated, fails: between two calls one time unit apart (\<open>2^-32\<close> s) no whole
  frame has passed and the estimate is the same, and one second after the transfer the
  estimate is negative: \<open>jack_delay\<close> clamps nothing.
\<close>

theorem jack_delay_not_strict:
  "jack_delay playing_state 0 = (0, 1384)
   \<and> jack_delay playing_state 1 = (0, 1384)
   \<and> jack_delay playing_state 4294967296 = (0, - 42716)"
  by (simp add: jack_delay_def playing_state_def zero_state_def)

lemma frames_processed_steps:
  fixes a b :: int
  assumes "a < b"
  shows "a div 2 ^ 32 \<le> b div 2 ^ 32"
    and "b - a \<ge> 2 ^ 32 \<Longrightarrow> a div 2 ^ 32 < b div 2 ^ 32"
    and "\<bar>(b div 2 ^ 32 - a div 2 ^ 32) * 2 ^ 32 - (b - a)\<bar> < 2 ^ 32"
proof -
  show "a div 2 ^ 32 \<le> b div 2 ^ 32"
    using assms by (simp add: zdiv_mono1)
  show "a div 2 ^ 32 < b div 2 ^ 32" if "b - a \<ge> 2 ^ 32"
  proof -
    have "a div 2 ^ 32 + 1 = (a + 2 ^ 32) div 2 ^ 32"
      by simp
    also have "\<dots> \<le> b div 2 ^ 32"
      using that by (intro zdiv_mono1) simp_all
    finally show ?thesis by simp
  qed
  have "a = (a div 2 ^ 32) * 2 ^ 32 + a mod 2 ^ 32" "b = (b div 2 ^ 32) * 2 ^ 32 + b mod 2 ^ 32"
    by simp_all
  moreover have "0 \<le> a mod 2 ^ 32" "a mod 2 ^ 32 < 2 ^ 32" "0 \<le> b mod 2 ^ 32" "b mod 2 ^ 32 < 2 ^ 32"
    by simp_all
  ultimately show "\<bar>(b div 2 ^ 32 - a div 2 ^ 32) * 2 ^ 32 - (b - a)\<bar> < 2 ^ 32"
    by (simp add: algebra_simps)
qed

text \<open>
  C7, amended. With the globals unchanged (no push and no pull after the transfer) and
  no machine operation wrapping around, the estimates of two calls at increasing times
  never increase; they differ by the whole frames that passed in between, so the
  difference is within one frame of 44100 frames per second (per \<open>2^32\<close> time units);
  the later estimate is strictly smaller as soon as the calls are at least one frame
  period apart. \<open>jack_delay\<close> itself does not clamp: the estimate may be negative.
\<close>

theorem jack_delay_decreasing:
  assumes "delay_in_range s t1" and "delay_in_range s t2" and "sint t1 < sint t2"
  shows "snd (jack_delay s t2) \<le> snd (jack_delay s t1)
       \<and> ((sint t2 - sint t1) * 44100 \<ge> 2 ^ 32
            \<longrightarrow> snd (jack_delay s t2) < snd (jack_delay s t1))
       \<and> \<bar>(snd (jack_delay s t1) - snd (jack_delay s t2)) * 2 ^ 32
           - (sint t2 - sint t1) * 44100\<bar> < 2 ^ 32"
proof -
  let ?a = "(sint t1 - sint (time_of_latest_transfer s)) * 44100"
  let ?b = "(sint t2 - sint (time_of_latest_transfer s)) * 44100"
  have ab: "?a < ?b"
    using assms(3) by simp
  have diff: "?b - ?a = (sint t2 - sint t1) * 44100"
    by (simp add: algebra_simps)
  have d1: "snd (jack_delay s t1) = spec_base_latency s + int (audio_occupancy s) - ?a div 2 ^ 32"
    using jack_delay_in_range [OF assms(1)]
    by (simp add: spec_delay_def spec_frames_processed_def)
  have d2: "snd (jack_delay s t2) = spec_base_latency s + int (audio_occupancy s) - ?b div 2 ^ 32"
    using jack_delay_in_range [OF assms(2)]
    by (simp add: spec_delay_def spec_frames_processed_def)
  have dd: "snd (jack_delay s t1) - snd (jack_delay s t2) = ?b div 2 ^ 32 - ?a div 2 ^ 32"
    unfolding d1 d2 by simp
  have 1: "snd (jack_delay s t2) \<le> snd (jack_delay s t1)"
    using frames_processed_steps(1) [OF ab] unfolding d1 d2 by simp
  have 2: "(sint t2 - sint t1) * 44100 \<ge> 2 ^ 32
            \<longrightarrow> snd (jack_delay s t2) < snd (jack_delay s t1)"
    using frames_processed_steps(2) [OF ab] unfolding d1 d2 diff by simp
  have 3: "\<bar>(snd (jack_delay s t1) - snd (jack_delay s t2)) * 2 ^ 32
           - (sint t2 - sint t1) * 44100\<bar> < 2 ^ 32"
    using frames_processed_steps(3) [OF ab] unfolding dd diff .
  show ?thesis using 1 2 3 by blast
qed

theorem jack_delay_decreasing_witness:
  "delay_in_range playing_state 4294967296 \<and> delay_in_range playing_state 8589934592
   \<and> sint (4294967296 :: 64 word) < sint (8589934592 :: 64 word)
   \<and> snd (jack_delay playing_state 4294967296) = - 42716
   \<and> snd (jack_delay playing_state 8589934592) = - 86816
   \<and> snd (jack_delay playing_state 8589934592) < snd (jack_delay playing_state 4294967296)"
proof -
  have lt: "sint (4294967296 :: 64 word) < sint (8589934592 :: 64 word)"
    by simp
  have v: "snd (jack_delay playing_state 4294967296) = - 42716"
    "snd (jack_delay playing_state 8589934592) = - 86816"
    by (simp_all add: jack_delay_def playing_state_def zero_state_def)
  show ?thesis
    using jack_delay_decreasing
      [OF delay_in_range_playing_state(1) delay_in_range_playing_state(2) lt]
      delay_in_range_playing_state lt v
    by simp
qed


subsection \<open>Opening the client\<close>

lemma jack_client_open_if_needed_config [simp]:
  "config (snd (jack_client_open_if_needed s srv)) = config s"
  by (simp add: jack_client_open_if_needed_def Let_def debug_def inform_def jack_call_def)

lemma jack_client_open_if_needed_log:
  "set (log_calls s) \<subseteq> set (log_calls (snd (jack_client_open_if_needed s srv)))"
  by (auto simp add: jack_client_open_if_needed_def Let_def debug_def inform_def jack_call_def)

lemma jack_client_open_if_needed_healthy:
  assumes "client_is_open s = 0" and "jack_client_open_result srv \<noteq> None"
    and "jack_get_sample_rate_result srv = 44100"
    and "jack_set_latency_callback_result srv = 0" and "jack_activate_result srv = 0"
  shows "fst (jack_client_open_if_needed s srv) = 1"
  using assms
  by (simp add: jack_client_open_if_needed_def Let_def debug_def inform_def jack_call_def)

text \<open>
  C8. When the client is closed, JACK grants a client and its sample rate is not 44100,
  \<open>jack_client_open_if_needed\<close> returns 0 and leaves \<open>client_is_open\<close> at 0; it calls
  neither \<open>jack_set_latency_callback\<close> nor \<open>jack_activate\<close>; the only message is the
  \<open>inform\<close> that reports the wrong speed. Nothing fatal happens, and the next turn of
  the scanner thread, or any later call, tries again: with a server at 44100 that
  accepts the callbacks and the activation it opens the client.
\<close>

theorem wrong_sample_rate_stays_closed:
  assumes "client_is_open s = 0" and "jack_client_open_result srv \<noteq> None"
    and "jack_get_sample_rate_result srv \<noteq> 44100"
  shows "fst (jack_client_open_if_needed s srv) = 0
       \<and> client_is_open (snd (jack_client_open_if_needed s srv)) = 0
       \<and> jack_calls (snd (jack_client_open_if_needed s srv)) =
           jack_calls s @ [Jack_client_open, Jack_set_process_callback,
             Jack_port_register (jack_left_channel_name (config s)),
             Jack_port_register (jack_right_channel_name (config s)),
             Jack_get_sample_rate]
       \<and> log_calls (snd (jack_client_open_if_needed s srv)) =
           log_calls s @ [Inform (Wrong_speed (jack_get_sample_rate_result srv))]
       \<and> (jack_client_open_result srv' \<noteq> None \<and> jack_get_sample_rate_result srv' = 44100
            \<and> jack_set_latency_callback_result srv' = 0 \<and> jack_activate_result srv' = 0
          \<longrightarrow> client_is_open (open_client_if_necessary_thread_function_turn
                  (snd (jack_client_open_if_needed s srv)) srv') = 1
              \<and> fst (jack_client_open_if_needed
                  (snd (jack_client_open_if_needed s srv)) srv') = 1)"
proof -
  let ?s' = "snd (jack_client_open_if_needed s srv)"
  have closed: "client_is_open ?s' = 0"
    using assms
    by (simp add: jack_client_open_if_needed_def Let_def debug_def inform_def jack_call_def)
  have ret: "fst (jack_client_open_if_needed s srv) = 0"
    using assms
    by (simp add: jack_client_open_if_needed_def Let_def debug_def inform_def jack_call_def)
  have calls: "jack_calls ?s' =
      jack_calls s @ [Jack_client_open, Jack_set_process_callback,
        Jack_port_register (jack_left_channel_name (config s)),
        Jack_port_register (jack_right_channel_name (config s)), Jack_get_sample_rate]"
    using assms
    by (simp add: jack_client_open_if_needed_def Let_def debug_def inform_def jack_call_def)
  have logged: "log_calls ?s' = log_calls s @ [Inform (Wrong_speed (jack_get_sample_rate_result srv))]"
    using assms
    by (simp add: jack_client_open_if_needed_def Let_def debug_def inform_def jack_call_def)
  have retry: "client_is_open (open_client_if_necessary_thread_function_turn ?s' srv') = 1
      \<and> fst (jack_client_open_if_needed ?s' srv') = 1"
    if h: "jack_client_open_result srv' \<noteq> None \<and> jack_get_sample_rate_result srv' = 44100
      \<and> jack_set_latency_callback_result srv' = 0 \<and> jack_activate_result srv' = 0"
  proof -
    have c: "client_is_open (debug 1 Try_to_open_client ?s') = 0"
      using closed by (simp add: debug_def)
    have "fst (jack_client_open_if_needed (debug 1 Try_to_open_client ?s') srv') = 1"
      using c h by (intro jack_client_open_if_needed_healthy) simp_all
    then have "client_is_open (snd (jack_client_open_if_needed
        (debug 1 Try_to_open_client ?s') srv')) = 1"
      by (simp add: jack_client_open_if_needed_def Let_def)
    then have 1: "client_is_open (open_client_if_necessary_thread_function_turn ?s' srv') = 1"
      using closed by (simp add: open_client_if_necessary_thread_function_turn_def)
    have 2: "fst (jack_client_open_if_needed ?s' srv') = 1"
      using closed h by (intro jack_client_open_if_needed_healthy) simp_all
    show ?thesis using 1 2 by simp
  qed
  show ?thesis using ret closed calls logged retry by blast
qed

theorem wrong_sample_rate_stays_closed_witness:
  "client_is_open zero_state = 0 \<and> jack_client_open_result server_48000 \<noteq> None
   \<and> jack_get_sample_rate_result server_48000 \<noteq> 44100
   \<and> fst (jack_client_open_if_needed zero_state server_48000) = 0
   \<and> log_calls (snd (jack_client_open_if_needed zero_state server_48000)) = [Inform (Wrong_speed 48000)]
   \<and> fst (jack_client_open_if_needed
       (snd (jack_client_open_if_needed zero_state server_48000)) server_44100) = 1"
proof -
  have h: "client_is_open zero_state = 0" "jack_client_open_result server_48000 \<noteq> None"
    "jack_get_sample_rate_result server_48000 \<noteq> 44100"
    by (simp_all add: zero_state_def server_48000_def)
  have g: "jack_client_open_result server_44100 \<noteq> None
      \<and> jack_get_sample_rate_result server_44100 = 44100
      \<and> jack_set_latency_callback_result server_44100 = 0
      \<and> jack_activate_result server_44100 = 0"
    by (simp add: server_44100_def server_48000_def)
  have l: "log_calls zero_state = []" "jack_get_sample_rate_result server_48000 = 48000"
    by (simp_all add: zero_state_def server_48000_def)
  show ?thesis
    using wrong_sample_rate_stays_closed [OF h, of server_44100] h g l by simp
qed


subsection \<open>Initialisation\<close>

lemma invalid_interval_conversions:
  "format_conversions invalid_interval_format = [CHR ''s'', CHR ''d'']"
  by (simp add: invalid_interval_format_def)

lemma invalid_interval_rendering:
  "\<not> rendering_defined (format_conversions invalid_interval_format) [Int_arg v, Int_arg d]"
  by (simp add: invalid_interval_conversions)

lemma jack_init_names_keeps:
  "jack_auto_client_open_interval (config (jack_init_names s))
     = jack_auto_client_open_interval (config s)"
  "log_calls (jack_init_names s) = log_calls s"
  by (simp_all add: jack_init_names_def Let_def)

lemma jack_init_buffer_keeps:
  "config (jack_init_buffer p s) = config s"
  "log_calls (jack_init_buffer p s) = log_calls s"
  by (simp_all add: jack_init_buffer_def Let_def)

text \<open>
  What the block does with an interval below 0 or above 300: when \<open>debug\<close> formats calls
  of level 1 the call does not return; when it does not, the interval is left alone.
\<close>

lemma jack_init_settings_invalid_interval:
  assumes "lookup_auto_client_open_interval f = Some v" and "v < 0 \<or> v > 300"
  shows "renders 1 \<Longrightarrow> jack_init_settings renders f s = Inl Undefined_format_argument"
    and "\<not> renders 1 \<Longrightarrow> \<exists>s'. jack_init_settings renders f s = Inr s'
          \<and> jack_auto_client_open_interval (config s')
              = jack_auto_client_open_interval (config s)"
  using assms
  by (auto simp add: jack_init_settings_def Let_def debug_format_def
      invalid_interval_rendering split: option.splits)

lemma jack_init_invalid_interval:
  assumes pgo_cfg: "\<And>c. cfg (parse_general_audio_options c) = cfg c"
    and pgo_interval: "\<And>c. jack_auto_client_open_interval (parse_general_audio_options c)
                          = jack_auto_client_open_interval c"
    and handle: "cfg (config s) = Some f"
    and lookup: "lookup_auto_client_open_interval f = Some v"
    and invalid: "v < 0 \<or> v > 300"
  shows "renders 1 \<Longrightarrow>
           jack_init renders parse_general_audio_options malloc_buffer malloc_thread srv s
             = Inl Undefined_format_argument"
    and "\<not> renders 1 \<Longrightarrow>
           \<exists>s'. jack_init renders parse_general_audio_options (Some p) malloc_thread srv s
                  = Inr (0, s')
                \<and> jack_auto_client_open_interval (config s') = 1"
proof -
  define s1 where "s1 = (jack_init_defaults s)
      \<lparr>config := parse_general_audio_options (config (jack_init_defaults s))\<rparr>"
  have c1: "cfg (config s1) = Some f" "jack_auto_client_open_interval (config s1) = 1"
    by (simp_all add: s1_def jack_init_defaults_def pgo_cfg pgo_interval handle)
  show "jack_init renders parse_general_audio_options malloc_buffer malloc_thread srv s
      = Inl Undefined_format_argument" if "renders 1"
    using jack_init_settings_invalid_interval(1)
        [where renders = renders and s = s1, OF lookup invalid that] c1(1)
    unfolding s1_def by (simp add: jack_init_def Let_def)
  show "\<exists>s'. jack_init renders parse_general_audio_options (Some p) malloc_thread srv s
        = Inr (0, s') \<and> jack_auto_client_open_interval (config s') = 1" if nr: "\<not> renders 1"
  proof -
    obtain s2 where s2: "jack_init_settings renders f s1 = Inr s2"
      "jack_auto_client_open_interval (config s2) = 1"
      using jack_init_settings_invalid_interval(2)
          [where renders = renders and s = s1, OF lookup invalid nr] c1(2)
      by auto
    define s6 where "s6 = jack_init_buffer p (jack_init_names s2)"
    have i6: "jack_auto_client_open_interval (config s6) = 1"
      using s2(2) by (simp add: s6_def jack_init_buffer_keeps jack_init_names_keeps)
    have run: "jack_init renders parse_general_audio_options (Some p) malloc_thread srv s =
        (if \<not> malloc_thread
         then Inr (0, snd (jack_client_open_if_needed
                             (debug 1 No_space_for_scanner_thread s6) srv))
         else Inr (0, s6\<lparr>open_client_if_necessary_thread := True\<rparr>))"
      using i6 c1(1) s2(1) unfolding s6_def s1_def
      by (simp add: jack_init_def Let_def)
    show ?thesis
    proof (cases malloc_thread)
      case True
      then show ?thesis using run i6 by simp
    next
      case False
      have "jack_auto_client_open_interval (config (snd (jack_client_open_if_needed
          (debug 1 No_space_for_scanner_thread s6) srv))) = 1"
        using i6 by (simp add: debug_def)
      then show ?thesis using run False by simp
    qed
  qed
qed

text \<open>
  C9. The code does not do what is said. With an interval of 301 in the settings and a
  logger that formats the calls of level 1, \<open>jack_init\<close> hands the \<open>int\<close> 301 to the
  \<open>%s\<close> of its format \<^verbatim>\<open>"%sd"\<close> and does not return: there is no success and no
  logged value. Only with a logger that does not format level 1, and so logs nothing of
  it, does \<open>jack_init\<close> return 0 with the default interval of 1 second.
\<close>

theorem jack_init_invalid_interval_undefined:
  "lookup_auto_client_open_interval settings_301 = Some 301
   \<and> format_conversions invalid_interval_format = [CHR ''s'', CHR ''d'']
   \<and> jack_init (shows_up_to 1) parse_nothing (Some 4096) True server_44100
        state_with_settings_301 = Inl Undefined_format_argument
   \<and> (\<exists>s'. jack_init (shows_up_to 0) parse_nothing (Some 4096) True server_44100
              state_with_settings_301 = Inr (0, s')
          \<and> jack_auto_client_open_interval (config s') = 1)"
proof -
  have h: "cfg (config state_with_settings_301) = Some settings_301"
    "lookup_auto_client_open_interval settings_301 = Some 301"
    by (simp_all add: state_with_settings_301_def settings_301_def)
  have i: "(301 :: int) < 0 \<or> (301 :: int) > 300"
    by simp
  have p: "cfg (parse_nothing c) = cfg c"
    "jack_auto_client_open_interval (parse_nothing c) = jack_auto_client_open_interval c" for c
    by (simp_all add: parse_nothing_def)
  have v: "shows_up_to 1 1" "\<not> shows_up_to 0 1"
    by (simp_all add: shows_up_to_def)
  show ?thesis
    using jack_init_invalid_interval(1)
        [where parse_general_audio_options = parse_nothing and renders = "shows_up_to 1",
          OF p h i v(1)]
      jack_init_invalid_interval(2)
        [where parse_general_audio_options = parse_nothing and renders = "shows_up_to 0",
          OF p h i v(2)]
      h(2) invalid_interval_conversions
    by simp
qed

subsection \<open>The callback\<close>

lemma cb_buffers:
  "fst (snd (jack_stream_write_cb rnd s env nframes)) =
     fst (fill_silence
       (transferred rnd s (left_port_buffer env) (frames_delivered s nframes) IFT_frame_left_sample,
        transferred rnd s (right_port_buffer env) (frames_delivered s nframes) IFT_frame_right_sample)
       (nframes_of_size_t (frames_delivered s nframes)) (unat nframes))"
  "fst (snd (snd (jack_stream_write_cb rnd s env nframes))) =
     snd (fill_silence
       (transferred rnd s (left_port_buffer env) (frames_delivered s nframes) IFT_frame_left_sample,
        transferred rnd s (right_port_buffer env) (frames_delivered s nframes) IFT_frame_right_sample)
       (nframes_of_size_t (frames_delivered s nframes)) (unat nframes))"
  by (simp_all add: jack_stream_write_cb_def transferred_def frames_delivered_def min_def Let_def split: prod.splits)

lemma fill_silence_at:
  "fst (fill_silence lr i n) j = (if i \<le> j \<and> j < n then 0 else fst lr j)"
  "snd (fill_silence lr i n) j = (if i \<le> j \<and> j < n then 0 else snd lr j)"
proof (induction lr i n rule: fill_silence.induct)
  case (1 left_buffer right_buffer i nframes)
  {
    case 1
    show ?case
      using "1.IH"(1) by (subst fill_silence.simps) auto
  next
    case 2
    show ?case
      using "1.IH"(2) by (subst fill_silence.simps) auto
  }
qed

lemma cb_state:
  "snd (snd (snd (jack_stream_write_cb rnd s env nframes))) =
     s\<lparr>audio_toq :=
         (if frames_delivered s nframes * 2 * 2 \<le> ptr_diff (audio_umb s) (audio_toq s)
          then audio_toq s + frames_delivered s nframes * 2 * 2
          else audio_lmb s + (frames_delivered s nframes
                 - ptr_diff (audio_umb s) (audio_toq s) div (2 * 2)) * 2 * 2),
       audio_occupancy := audio_occupancy s - frames_delivered s nframes,
       latest_left_latency_range := left_port_latency_range env,
       latest_right_latency_range := right_port_latency_range env,
       time_of_latest_transfer := absolute_time_in_fp env\<rparr>"
  by (simp add: jack_stream_write_cb_def frames_delivered_def min_def Let_def split: prod.splits)

lemma cb_ret: "fst (jack_stream_write_cb rnd s env nframes) = 0"
  by (simp add: jack_stream_write_cb_def Let_def split: prod.splits)

text \<open>
  C10. Every call of the callback, whatever the state, the ports and the number of frames,
  stores the latency ranges JACK reports for the two ports and the current time in the
  globals; in particular a call on an empty ring, which moves no frame and leaves the
  read cursor where it was, does. A delay query after it uses the stored ranges and
  measures the elapsed time from that call.
\<close>

theorem callback_refreshes:
  "latest_left_latency_range (snd (snd (snd (jack_stream_write_cb rnd s env nframes))))
     = left_port_latency_range env
   \<and> latest_right_latency_range (snd (snd (snd (jack_stream_write_cb rnd s env nframes))))
     = right_port_latency_range env
   \<and> time_of_latest_transfer (snd (snd (snd (jack_stream_write_cb rnd s env nframes))))
     = absolute_time_in_fp env
   \<and> (audio_occupancy s = 0 \<longrightarrow>
        audio_occupancy (snd (snd (snd (jack_stream_write_cb rnd s env nframes)))) = 0
        \<and> audio_toq (snd (snd (snd (jack_stream_write_cb rnd s env nframes)))) = audio_toq s
        \<and> time_of_latest_transfer (snd (snd (snd (jack_stream_write_cb rnd s env nframes))))
            = absolute_time_in_fp env)
   \<and> snd (jack_delay (snd (snd (snd (jack_stream_write_cb rnd s env nframes)))) time_now)
     = sint (ucast (if (range_min (left_port_latency_range env)
                         + range_max (left_port_latency_range env)) div 2 = 0
                    then (range_min (right_port_latency_range env)
                          + range_max (right_port_latency_range env)) div 2
                    else (range_min (left_port_latency_range env)
                          + range_max (left_port_latency_range env)) div 2)
             + word_of_nat (audio_occupancy s - frames_delivered s nframes)
             - signed_drop_bit 32 ((time_now - absolute_time_in_fp env) * 44100) :: 64 word)"
proof -
  let ?s' = "snd (snd (snd (jack_stream_write_cb rnd s env nframes)))"
  have fields: "latest_left_latency_range ?s' = left_port_latency_range env"
    "latest_right_latency_range ?s' = right_port_latency_range env"
    "time_of_latest_transfer ?s' = absolute_time_in_fp env"
    "audio_occupancy ?s' = audio_occupancy s - frames_delivered s nframes"
    by (simp_all add: cb_state)
  have empty: "audio_occupancy s = 0 \<Longrightarrow> audio_toq ?s' = audio_toq s"
    by (simp add: cb_state frames_delivered_def)
  have delay: "snd (jack_delay ?s' time_now)
     = sint (ucast (if (range_min (left_port_latency_range env)
                         + range_max (left_port_latency_range env)) div 2 = 0
                    then (range_min (right_port_latency_range env)
                          + range_max (right_port_latency_range env)) div 2
                    else (range_min (left_port_latency_range env)
                          + range_max (left_port_latency_range env)) div 2)
             + word_of_nat (audio_occupancy s - frames_delivered s nframes)
             - signed_drop_bit 32 ((time_now - absolute_time_in_fp env) * 44100) :: 64 word)"
    unfolding jack_delay_def Let_def fields by simp
  show ?thesis
    using fields empty delay by simp
qed

theorem callback_refreshes_witness:
  "audio_occupancy fresh_state = 0
   \<and> time_of_latest_transfer fresh_state = 0
   \<and> time_of_latest_transfer
        (snd (snd (snd (jack_stream_write_cb no_rounding fresh_state example_env 4))))
       = 4294967296
   \<and> latest_left_latency_range
        (snd (snd (snd (jack_stream_write_cb no_rounding fresh_state example_env 4))))
       = \<lparr>range_min = 256, range_max = 512\<rparr>
   \<and> audio_toq (snd (snd (snd (jack_stream_write_cb no_rounding fresh_state example_env 4))))
       = 4096"
  using callback_refreshes [of no_rounding fresh_state example_env 4 0]
  by (simp add: fresh_state_def jack_init_buffer_def zero_state_def example_env_def Let_def)


subsection \<open>Pushing without a check of the free space\<close>

lemma fresh_state_fields:
  "audio_lmb fresh_state = 4096" "audio_umb fresh_state = 4096 + buffer_size"
  "audio_toq fresh_state = 4096" "audio_eoq fresh_state = 4096"
  "audio_occupancy fresh_state = 0" "memory fresh_state a = 0"
  by (simp_all add: fresh_state_def jack_init_buffer_def zero_state_def Let_def)

lemma full_state_fields:
  "audio_lmb full_state = 4096" "audio_umb full_state = 4096 + buffer_size"
  "audio_toq full_state = 4096" "audio_eoq full_state = 4096 + buffer_size"
  "audio_occupancy full_state = 176400" "memory full_state a = 0"
  by (simp_all add: full_state_def play_def Let_def fresh_state_fields ptr_diff_def
      size_t_of_int_def buffer_size_def memcpy_def silence_buf_def)

text \<open>
  C1, as stated, fails: with the ring full (no free space), a push of one frame returns
  0, raises the occupancy to 176401, moves the write cursor and overwrites the oldest
  queued byte, the one at the read cursor.
\<close>

theorem play_overwrites_when_full:
  "buffer_size - audio_occupancy full_state * 4 = 0
   \<and> fst (play full_state ones_buf 1) = 0
   \<and> audio_occupancy (snd (play full_state ones_buf 1)) = 176401
   \<and> audio_eoq (snd (play full_state ones_buf 1)) \<noteq> audio_eoq full_state
   \<and> memory full_state (audio_toq full_state) = 0
   \<and> memory (snd (play full_state ones_buf 1)) (audio_toq full_state) = 1"
  by (simp add: play_def Let_def full_state_fields ptr_diff_def size_t_of_int_def
      buffer_size_def memcpy_def ones_buf_def)

text \<open>
  C2, as stated, fails: one push of 176401 frames on the freshly initialised ring, whose
  capacity is 176400 frames, leaves an occupancy of 176401.
\<close>

theorem occupancy_exceeds_capacity:
  "buffer_size div 4 = 176400
   \<and> audio_occupancy (run no_rounding fresh_state [Push silence_buf 176401]) = 176401"
  by (simp add: play_def Let_def fresh_state_fields ptr_diff_def size_t_of_int_def
      buffer_size_def)


subsection \<open>The ring in order\<close>

lemma buffer_size_facts:
  "0 < buffer_size" "4 dvd buffer_size" "buffer_size < 2147483648"
  "int buffer_size < 2147483648"
  by (simp_all add: buffer_size_def)

lemma size_t_of_int_nat: "0 \<le> i \<Longrightarrow> i < 2 ^ 64 \<Longrightarrow> size_t_of_int i = nat i"
  by (simp add: size_t_of_int_def)

lemma ptr_diff_le: "q \<le> p \<Longrightarrow> p < 2 ^ 64 \<Longrightarrow> ptr_diff p q = p - q"
  by (simp add: ptr_diff_def size_t_of_int_def nat_diff_distrib')

lemma nframes_of_size_t_small: "n < 2 ^ 32 \<Longrightarrow> nframes_of_size_t n = n"
  by (simp add: nframes_of_size_t_def)

lemma sint_bytes_to_transfer:
  fixes samples :: "32 word"
  assumes "0 \<le> sint samples" and "sint samples * 4 < 2 ^ 31"
  shows "sint (samples * 2 * 2) = sint samples * 4"
proof -
  have e: "samples * 2 * 2 = samples * 4"
    by simp
  have "sint (samples * 4) = signed_take_bit 31 (sint samples * sint (4 :: 32 word))"
    by (simp only: sint_word_ariths) simp
  also have "\<dots> = signed_take_bit 31 (sint samples * 4)"
    by simp
  also have "\<dots> = sint samples * 4"
    using assms by (intro signed_take_bit_int_eq_self) simp_all
  finally show ?thesis
    unfolding e .
qed

lemma fits_nat:
  fixes k :: int and occ C :: nat
  assumes "0 \<le> k" and "k * 4 \<le> int C - int occ * 4"
  shows "(occ + nat k) * 4 \<le> C"
  using assms by presburger

text \<open>What a push that fits does to the globals.\<close>

lemma play_fits:
  assumes ok: "ring_ok s" and nonneg: "0 \<le> sint samples"
    and room: "sint samples * 4 \<le> int buffer_size - int (audio_occupancy s) * 4"
  shows "play s buf samples =
    (0, s\<lparr>memory :=
             (if nat (sint samples) * 4 \<le> audio_umb s - audio_eoq s
              then memcpy (memory s) (audio_eoq s) buf (nat (sint samples) * 4)
              else memcpy (memcpy (memory s) (audio_eoq s) buf (audio_umb s - audio_eoq s))
                     (audio_lmb s) (\<lambda>i. buf (audio_umb s - audio_eoq s + i))
                     (nat (sint samples) * 4 - (audio_umb s - audio_eoq s))),
           audio_occupancy := audio_occupancy s + nat (sint samples),
           audio_eoq :=
             (if nat (sint samples) * 4 \<le> audio_umb s - audio_eoq s
              then audio_eoq s + nat (sint samples) * 4
              else audio_lmb s + nat (sint samples) * 4 - (audio_umb s - audio_eoq s))\<rparr>)"
proof -
  define n where "n = nat (sint samples)"
  have fit: "(audio_occupancy s + n) * 4 \<le> buffer_size"
    unfolding n_def using nonneg room by (rule fits_nat)
  have n4: "n * 4 < 2147483648"
    using fit buffer_size_facts(3) by simp
  have n5: "audio_occupancy s + n < 18446744073709551616"
    using fit buffer_size_facts(3) by fastforce
  have k: "sint samples = int n"
    unfolding n_def using nonneg by simp
  have small: "sint samples * 4 < 2 ^ 31"
    unfolding k using n4 by simp
  have bytes: "size_t_of_int (sint (samples * 2 * 2)) = n * 4"
  proof -
    have "sint (samples * 2 * 2) = sint samples * 4"
      using nonneg small by (rule sint_bytes_to_transfer)
    moreover have "size_t_of_int (int n * 4) = nat (int n * 4)"
      using n4 by (intro size_t_of_int_nat) simp_all
    ultimately show ?thesis
      unfolding k by (simp add: nat_mult_distrib)
  qed
  have space: "ptr_diff (audio_umb s) (audio_eoq s) = audio_umb s - audio_eoq s"
    using ok by (intro ptr_diff_le) (simp_all add: ring_ok_def)
  have count: "size_t_of_int (sint samples) = n"
    unfolding k using n4 by (simp add: size_t_of_int_nat)
  have occ: "(audio_occupancy s + n) mod 2 ^ 64 = audio_occupancy s + n"
    using n5 by simp
  show ?thesis
    unfolding play_def Let_def bytes space count occ n_def [symmetric] by simp
qed

subsection \<open>Positions around the ring\<close>

lemma ring_positions_differ:
  fixes C a i k :: nat
  assumes "i < k" and "k < C"
  shows "(a + i) mod C \<noteq> (a + k) mod C"
proof
  assume "(a + i) mod C = (a + k) mod C"
  then have "(a + k) mod C = (a + i) mod C"
    by simp
  moreover have "a + i \<le> a + k"
    using assms(1) by simp
  ultimately have "C dvd (a + k) - (a + i)"
    by (simp add: mod_eq_dvd_iff_nat)
  then have "C dvd k - i"
    by simp
  moreover have "0 < k - i"
    using assms(1) by simp
  ultimately have "C \<le> k - i"
    by (rule dvd_imp_le)
  then show False
    using assms by linarith
qed

lemma memcpy_inside: "dest \<le> a \<Longrightarrow> a < dest + n \<Longrightarrow> memcpy m dest src n a = src (a - dest)"
  by (simp add: memcpy_def)

lemma memcpy_outside: "a < dest \<or> dest + n \<le> a \<Longrightarrow> memcpy m dest src n a = m a"
  by (auto simp add: memcpy_def)

lemma pushed_written:
  assumes "e \<le> c" and "b \<le> c" and "j < b"
  shows "pushed m l c e buf b (l + (e + j) mod c) = buf j"
proof (cases "b \<le> c - e")
  case True
  then have "e + j < c"
    using assms by linarith
  then have "(e + j) mod c = e + j"
    by simp
  moreover have "l + e \<le> l + (e + j)" "l + (e + j) < l + e + b" "l + (e + j) - (l + e) = j"
    using assms(3) by simp_all
  ultimately show ?thesis
    using True by (simp add: pushed_def memcpy_inside)
next
  case False
  show ?thesis
  proof (cases "j < c - e")
    case True
    then have pos: "(e + j) mod c = e + j"
      by simp
    have "l + (b - (c - e)) \<le> l + (e + j)"
      using assms by linarith
    then have "memcpy (memcpy m (l + e) buf (c - e)) l (\<lambda>i. buf (c - e + i)) (b - (c - e))
        (l + (e + j)) = memcpy m (l + e) buf (c - e) (l + (e + j))"
      by (intro memcpy_outside) simp
    also have "\<dots> = buf (l + (e + j) - (l + e))"
      using True by (intro memcpy_inside) simp_all
    finally show ?thesis
      using False by (simp add: pushed_def pos)
  next
    case ge: False
    have f: "c \<le> e + j" "e + j - c < c" "e + j - c < b - (c - e)" "c - e + (e + j - c) = j"
      using assms ge False by linarith+
    have pos: "(e + j) mod c = e + j - c"
      using f(1,2) by (simp add: le_mod_geq)
    have "memcpy (memcpy m (l + e) buf (c - e)) l (\<lambda>i. buf (c - e + i)) (b - (c - e))
        (l + (e + j - c)) = buf (c - e + (l + (e + j - c) - l))"
      using f(3) by (intro memcpy_inside) simp_all
    then show ?thesis
      using False f(4) by (simp add: pushed_def pos)
  qed
qed

lemma pushed_kept_inside:
  assumes "e \<le> c" and "b \<le> c" and "q < c" and "\<And>j. j < b \<Longrightarrow> q \<noteq> (e + j) mod c"
  shows "pushed m l c e buf b (l + q) = m (l + q)"
proof -
  have range: "\<not> (e \<le> q \<and> q < e + b)"
  proof
    assume h: "e \<le> q \<and> q < e + b"
    then have "q - e < b"
      by force
    moreover have "(e + (q - e)) mod c = q"
      using h assms(3) by simp
    ultimately show False
      using assms(4) [of "q - e"] by simp
  qed
  have second: "\<not> q < b - (c - e)" if "\<not> b \<le> c - e"
  proof
    assume h: "q < b - (c - e)"
    then have "q + (c - e) < b" and "e + (q + (c - e)) = q + c"
      using that assms(1) by linarith+
    moreover have "(q + c) mod c = q"
      using assms(3) by simp
    ultimately show False
      using assms(4) [of "q + (c - e)"] by simp
  qed
  show ?thesis
  proof (cases "b \<le> c - e")
    case True
    have "l + q < l + e \<or> l + e + b \<le> l + q"
      using range by linarith
    then show ?thesis
      using True by (simp add: pushed_def memcpy_outside)
  next
    case False
    have 1: "l + q < l \<or> l + (b - (c - e)) \<le> l + q"
      using second [OF False] by linarith
    have 2: "l + q < l + e \<or> l + e + (c - e) \<le> l + q"
      using range False by linarith
    show ?thesis
      using False by (simp add: pushed_def memcpy_outside [OF 1] memcpy_outside [OF 2])
  qed
qed

lemma pushed_kept_outside:
  assumes "e \<le> c" and "b \<le> c" and "a < l \<or> l + c \<le> a"
  shows "pushed m l c e buf b a = m a"
proof (cases "b \<le> c - e")
  case True
  have "a < l + e \<or> l + e + b \<le> a"
    using assms True by linarith
  then show ?thesis
    using True by (simp add: pushed_def memcpy_outside)
next
  case False
  have 1: "a < l \<or> l + (b - (c - e)) \<le> a"
    using assms False by linarith
  have 2: "a < l + e \<or> l + e + (c - e) \<le> a"
    using assms False by linarith
  show ?thesis
    using False by (simp add: pushed_def memcpy_outside [OF 1] memcpy_outside [OF 2])
qed

lemma mod_shift_cong:
  fixes a b c j :: nat
  assumes "a mod c = b mod c"
  shows "(a + j) mod c = (b + j) mod c"
  using assms by (metis mod_add_left_eq)

lemma ring_ok_offsets:
  assumes "ring_ok s"
  shows "audio_eoq s = audio_lmb s + (audio_eoq s - audio_lmb s)"
    and "audio_toq s = audio_lmb s + (audio_toq s - audio_lmb s)"
    and "audio_umb s = audio_lmb s + buffer_size"
    and "audio_eoq s - audio_lmb s \<le> buffer_size"
    and "audio_toq s - audio_lmb s \<le> buffer_size"
    and "4 dvd (audio_eoq s - audio_lmb s)"
    and "4 dvd (audio_toq s - audio_lmb s)"
    and "audio_lmb s + buffer_size < 2 ^ 64"
    and "(audio_eoq s - audio_lmb s) mod buffer_size
         = (audio_toq s - audio_lmb s + audio_occupancy s * 4) mod buffer_size"
    and "audio_occupancy s * 4 \<le> buffer_size"
proof -
  have c: "audio_umb s = audio_lmb s + buffer_size" "audio_umb s < 2 ^ 64"
    "audio_lmb s \<le> audio_toq s" "audio_toq s \<le> audio_umb s"
    "audio_lmb s \<le> audio_eoq s" "audio_eoq s \<le> audio_umb s"
    using assms by (simp_all add: ring_ok_def)
  show "audio_eoq s = audio_lmb s + (audio_eoq s - audio_lmb s)"
    and "audio_toq s = audio_lmb s + (audio_toq s - audio_lmb s)"
    using c(3,5) by simp_all
  show "audio_umb s = audio_lmb s + buffer_size"
    by (rule c(1))
  show "audio_eoq s - audio_lmb s \<le> buffer_size" and "audio_toq s - audio_lmb s \<le> buffer_size"
    using c(1,4,6) by linarith+
  show "audio_lmb s + buffer_size < 2 ^ 64"
    using c(1,2) by simp
  show "4 dvd (audio_eoq s - audio_lmb s)" and "4 dvd (audio_toq s - audio_lmb s)"
    and "(audio_eoq s - audio_lmb s) mod buffer_size
         = (audio_toq s - audio_lmb s + audio_occupancy s * 4) mod buffer_size"
    and "audio_occupancy s * 4 \<le> buffer_size"
    using assms by (simp_all add: ring_ok_def)
qed

text \<open>
  A push that fits keeps the ring in order, adds its frames to the occupancy and appends
  its bytes to the queue.
\<close>

lemma play_fits_ring:
  assumes ok: "ring_ok s" and nonneg: "0 \<le> sint samples"
    and room: "sint samples * 4 \<le> int buffer_size - int (audio_occupancy s) * 4"
  shows "ring_ok (snd (play s buf samples))"
    and "audio_occupancy (snd (play s buf samples)) = audio_occupancy s + nat (sint samples)"
    and "queued_bytes (snd (play s buf samples))
         = queued_bytes s @ map buf [0..<nat (sint samples) * 4]"
proof -
  define n where "n = nat (sint samples)"
  define l where "l = audio_lmb s"
  define e where "e = audio_eoq s - audio_lmb s"
  define t where "t = audio_toq s - audio_lmb s"
  define occ where "occ = audio_occupancy s"
  let ?c = buffer_size
  let ?s' = "snd (play s buf samples)"
  have fit: "(occ + n) * 4 \<le> ?c"
    unfolding n_def occ_def using nonneg room by (rule fits_nat)
  have b: "n * 4 \<le> ?c" "occ * 4 + n * 4 \<le> ?c"
    using fit by simp_all
  have ptrs: "audio_eoq s = l + e" "audio_toq s = l + t" "audio_umb s = l + ?c"
    "e \<le> ?c" "t \<le> ?c" "4 dvd e" "4 dvd t" "l + ?c < 2 ^ 64"
    "e mod ?c = (t + occ * 4) mod ?c"
    using ring_ok_offsets [OF ok] by (simp_all add: l_def e_def t_def occ_def)
  have space: "audio_umb s - audio_eoq s = ?c - e"
    using ptrs by simp
  have s': "?s' = s\<lparr>memory := pushed (memory s) l ?c e buf (n * 4),
      audio_occupancy := occ + n,
      audio_eoq := (if n * 4 \<le> ?c - e then l + e + n * 4 else l + n * 4 - (?c - e))\<rparr>"
    unfolding play_fits [OF ok nonneg room] space pushed_def
    by (simp add: n_def ptrs(1) l_def occ_def)
  show "audio_occupancy ?s' = audio_occupancy s + nat (sint samples)"
    unfolding s' by (simp add: occ_def n_def)
  have eoq_val: "audio_eoq ?s' = l + (if n * 4 \<le> ?c - e then e + n * 4 else e + n * 4 - ?c)"
  proof (cases "n * 4 \<le> ?c - e")
    case True
    then show ?thesis by (simp add: s')
  next
    case False
    then have "l + n * 4 - (?c - e) = l + (e + n * 4 - ?c)"
      using ptrs(4) by linarith
    then show ?thesis using False by (simp add: s')
  qed
  have eoq': "audio_eoq ?s' - l \<le> ?c" "4 dvd (audio_eoq ?s' - l)"
    "(audio_eoq ?s' - l) mod ?c = (t + (occ + n) * 4) mod ?c" "l \<le> audio_eoq ?s'"
  proof -
    have shifted: "(e + n * 4) mod ?c = (t + (occ + n) * 4) mod ?c"
      using mod_shift_cong [OF ptrs(9), of "n * 4"] by (simp add: algebra_simps)
    show "l \<le> audio_eoq ?s'"
      unfolding eoq_val by simp
    show "audio_eoq ?s' - l \<le> ?c"
    proof (cases "n * 4 \<le> ?c - e")
      case True
      then have "e + n * 4 \<le> ?c"
        using ptrs(4) by linarith
      then show ?thesis unfolding eoq_val using True by simp
    next
      case False
      have "e + n * 4 - ?c \<le> ?c"
        using ptrs(4) b(1) by linarith
      then show ?thesis unfolding eoq_val using False by simp
    qed
    show "4 dvd (audio_eoq ?s' - l)"
    proof (cases "n * 4 \<le> ?c - e")
      case True
      then show ?thesis unfolding eoq_val using ptrs(6) by simp
    next
      case False
      have "4 dvd e + n * 4 - ?c"
        using ptrs(6) buffer_size_facts(2) by (intro dvd_diff_nat) simp_all
      then show ?thesis unfolding eoq_val using False by simp
    qed
    show "(audio_eoq ?s' - l) mod ?c = (t + (occ + n) * 4) mod ?c"
    proof (cases "n * 4 \<le> ?c - e")
      case True
      then show ?thesis unfolding eoq_val using shifted by simp
    next
      case False
      then have "?c \<le> e + n * 4"
        using ptrs(4) by linarith
      then show ?thesis unfolding eoq_val using False shifted by (simp add: le_mod_geq)
    qed
  qed
  have f': "audio_lmb ?s' = l" "audio_umb ?s' = l + ?c" "audio_toq ?s' = l + t"
    "audio_occupancy ?s' = occ + n"
    using ptrs(2,3) by (simp_all add: s' l_def)
  have top: "audio_eoq ?s' \<le> l + ?c"
    using eoq'(1) by linarith
  show "ring_ok ?s'"
    unfolding ring_ok_def f' using eoq' top fit ptrs(5,7,8) by simp
  have len: "length (queued_bytes ?s') = (occ + n) * 4"
    by (simp add: queued_bytes_def f'(4))
  have addr: "ring_address ?s' i = l + (t + i) mod ?c" for i
    by (simp add: ring_address_def s' l_def t_def)
  have addr0: "ring_address s i = l + (t + i) mod ?c" for i
    by (simp add: ring_address_def l_def t_def)
  have old: "memory ?s' (l + (t + i) mod ?c) = memory s (l + (t + i) mod ?c)" if "i < occ * 4" for i
  proof -
    have "(t + i) mod ?c \<noteq> (e + j) mod ?c" if "j < n * 4" for j
    proof -
      have "(e + j) mod ?c = (t + (occ * 4 + j)) mod ?c"
        using mod_shift_cong [OF ptrs(9), of j] by (simp add: algebra_simps)
      moreover have "i < occ * 4 + j" "occ * 4 + j < ?c"
        using \<open>i < occ * 4\<close> that b(2) by linarith+
      ultimately show ?thesis
        using ring_positions_differ [of i "occ * 4 + j" ?c t] by simp
    qed
    then have "pushed (memory s) l ?c e buf (n * 4) (l + (t + i) mod ?c)
        = memory s (l + (t + i) mod ?c)"
      using ptrs(4) b(1) buffer_size_facts(1) by (intro pushed_kept_inside) simp_all
    then show ?thesis
      by (simp add: s')
  qed
  have new: "memory ?s' (l + (t + (occ * 4 + j)) mod ?c) = buf j" if "j < n * 4" for j
  proof -
    have "(t + (occ * 4 + j)) mod ?c = (e + j) mod ?c"
      using mod_shift_cong [OF ptrs(9), of j] by (simp add: algebra_simps)
    then show ?thesis
      using pushed_written [OF ptrs(4) b(1) that, of "memory s" l buf] by (simp add: s')
  qed
  show "queued_bytes ?s' = queued_bytes s @ map buf [0..<nat (sint samples) * 4]"
  proof (rule nth_equalityI)
    show "length (queued_bytes ?s') = length (queued_bytes s @ map buf [0..<nat (sint samples) * 4])"
      using len by (simp add: queued_bytes_def occ_def n_def algebra_simps)
  next
    fix i assume "i < length (queued_bytes ?s')"
    then have i: "i < (occ + n) * 4"
      using len by simp
    have lhs: "queued_bytes ?s' ! i = memory ?s' (l + (t + i) mod ?c)"
      using i by (simp add: queued_bytes_def f'(4) addr)
    show "queued_bytes ?s' ! i = (queued_bytes s @ map buf [0..<nat (sint samples) * 4]) ! i"
    proof (cases "i < occ * 4")
      case True
      then have "(queued_bytes s @ map buf [0..<nat (sint samples) * 4]) ! i
          = memory s (l + (t + i) mod ?c)"
        by (simp add: nth_append queued_bytes_def addr0 occ_def)
      then show ?thesis
        using lhs old [OF True] by simp
    next
      case False
      define j where "j = i - occ * 4"
      have j: "j < n * 4" "i = occ * 4 + j"
        using False i by (simp_all add: j_def algebra_simps)
      have "(queued_bytes s @ map buf [0..<nat (sint samples) * 4]) ! i = buf j"
        using False j(1) by (simp add: nth_append queued_bytes_def occ_def n_def j_def)
      then show ?thesis
        using lhs new [OF j(1)] j(2) by simp
    qed
  qed
qed

subsection \<open>Pulling\<close>

lemma frame_contiguous:
  fixes t c j r :: nat
  assumes "4 dvd t" and "4 dvd c" and "0 < c" and "r < 4"
  shows "(t + 4 * j + r) mod c = (t + 4 * j) mod c + r"
proof -
  define x where "x = (t + 4 * j) mod c"
  have "4 dvd x"
    unfolding x_def using assms(1,2) by (simp add: dvd_mod)
  then obtain a where a: "x = 4 * a" ..
  obtain b where b: "c = 4 * b"
    using assms(2) ..
  have "x < c"
    unfolding x_def using assms(3) by simp
  then have "a < b"
    unfolding a b by simp
  then have "x + 4 \<le> c"
    unfolding a b by simp
  then have "x + r < c"
    using assms(4) by linarith
  then have "(x + r) mod c = x + r"
    by simp
  moreover have "(t + 4 * j + r) mod c = (x + r) mod c"
    unfolding x_def by (simp add: mod_add_left_eq)
  ultimately show ?thesis
    unfolding x_def by simp
qed

lemma transferred_at:
  assumes ok: "ring_ok s" and f: "f \<le> audio_occupancy s" and j: "j < f"
  shows "transferred rnd s out f side j =
    converted_value rnd (read_short (memory s) (ring_address s (4 * j + side_offset side)))"
proof -
  define l where "l = audio_lmb s"
  define t where "t = audio_toq s - audio_lmb s"
  let ?c = buffer_size
  let ?o = "side_offset side"
  have ptrs: "audio_toq s = l + t" "audio_umb s = l + ?c" "t \<le> ?c" "4 dvd t" "l + ?c < 2 ^ 64"
    "audio_occupancy s * 4 \<le> ?c"
    using ring_ok_offsets [OF ok] by (simp_all add: l_def t_def)
  have o: "?o < 3" "?o + 1 < 4"
    by (simp_all add: side_offset_def)
  have f4: "f * 4 \<le> ?c"
    using f ptrs(6) by linarith
  have small: "f < 2 ^ 32" "f - k < 2 ^ 32" "(?c - t) div 4 < 2 ^ 32" for k
    using f4 buffer_size_facts(3) by (simp_all; linarith)+
  have pd: "ptr_diff (audio_umb s) (audio_toq s) = ?c - t"
    using ptrs by (subst ptr_diff_le) simp_all
  have base: "(if side = IFT_frame_right_sample then a + 2 else a) = a + ?o" for a
    by (simp add: side_offset_def)
  have first: "4 * ((?c - t) div 4) = ?c - t"
    using ptrs(4) buffer_size_facts(2) by simp
  have addr: "ring_address s k = l + (t + k) mod ?c" for k
    by (simp add: ring_address_def l_def t_def)
  show ?thesis
  proof (cases "f * 4 \<le> ?c - t")
    case True
    have "t + (4 * j + ?o) < ?c"
      using True j o(1) by linarith
    then have a: "ring_address s (4 * j + ?o) = l + t + ?o + 4 * j"
      by (simp add: addr)
    have "transferred rnd s out f side j = convert_frames rnd (memory s) (l + t + ?o) out 0 f j"
      unfolding transferred_def pd deinterleave_and_convert_stream_def base
      using True by (simp add: ptrs(1) nframes_of_size_t_small [OF small(1)])
    also have "\<dots> = converted_value rnd (read_short (memory s) (l + t + ?o + 4 * (j - 0)))"
      using j by (simp add: convert_frames_at)
    finally show ?thesis
      by (simp add: a)
  next
    case False
    define p where "p = (?c - t) div 4"
    have p4: "4 * p = ?c - t"
      unfolding p_def by (rule first)
    have pf: "p < f"
      using False p4 by linarith
    have np: "nframes_of_size_t p = p"
      unfolding p_def by (rule nframes_of_size_t_small [OF small(3)])
    have tr: "transferred rnd s out f side =
        convert_frames rnd (memory s) (l + ?o)
          (if p \<noteq> 0 then convert_frames rnd (memory s) (l + t + ?o) out 0 p else out)
          p (f - p)"
      unfolding transferred_def pd deinterleave_and_convert_stream_def base
      using False
      by (simp add: ptrs(1) nframes_of_size_t_small [OF small(2)] np
          p_def [symmetric] l_def [symmetric])
    show ?thesis
    proof (cases "j < p")
      case True
      have "t + (4 * j + ?o) < ?c"
        using True p4 o(1) by linarith
      then have a: "ring_address s (4 * j + ?o) = l + t + ?o + 4 * j"
        by (simp add: addr)
      have "transferred rnd s out f side j
          = convert_frames rnd (memory s) (l + t + ?o) out 0 p j"
        using True by (simp add: tr convert_frames_at)
      also have "\<dots> = converted_value rnd (read_short (memory s) (l + t + ?o + 4 * (j - 0)))"
        using True by (simp add: convert_frames_at)
      finally show ?thesis
        by (simp add: a)
    next
      case ge: False
      have w: "?c \<le> t + (4 * j + ?o)" "t + (4 * j + ?o) - ?c < ?c"
        "t + (4 * j + ?o) - ?c = ?o + 4 * (j - p)"
        using ge p4 o(1) j f4 ptrs(3) by linarith+
      have a: "ring_address s (4 * j + ?o) = l + ?o + 4 * (j - p)"
        using w by (simp add: addr le_mod_geq)
      have "transferred rnd s out f side j
          = converted_value rnd (read_short (memory s) (l + ?o + 4 * (j - p)))"
        using ge j pf by (simp add: tr convert_frames_at)
      then show ?thesis
        by (simp add: a)
    qed
  qed
qed

lemma queued_bytes_nth:
  "k < audio_occupancy s * 4 \<Longrightarrow> queued_bytes s ! k = memory s (ring_address s k)"
  by (simp add: queued_bytes_def)

lemma frame_sample_queued:
  assumes ok: "ring_ok s" and j: "j < audio_occupancy s"
  shows "read_short (memory s) (ring_address s (4 * j + side_offset side))
         = frame_sample (queued_bytes s) j side"
proof -
  have c: "ring_address s (4 * j + r) = ring_address s (4 * j) + r" if "r < 4" for r
    using frame_contiguous [OF ring_ok_offsets(7) [OF ok] buffer_size_facts(2,1) that, of j]
    by (simp add: ring_address_def add.assoc)
  have q: "queued_bytes s ! (4 * j + r) = memory s (ring_address s (4 * j) + r)" if "r < 4" for r
  proof -
    have "4 * j + r < audio_occupancy s * 4"
      using j that by linarith
    then show ?thesis
      by (simp add: queued_bytes_nth c [OF that])
  qed
  show ?thesis
  proof (cases side)
    case IFT_frame_left_sample
    then show ?thesis
      using q [of 0] q [of 1] c [of 0]
      by (simp add: frame_sample_def read_short_def side_offset_def)
  next
    case IFT_frame_right_sample
    then show ?thesis
      using q [of 2] q [of 3] c [of 2]
      by (simp add: frame_sample_def read_short_def side_offset_def numeral_3_eq_3)
  qed
qed

lemma frames_delivered_le:
  "frames_delivered s nframes \<le> audio_occupancy s" "frames_delivered s nframes \<le> unat nframes"
  by (simp_all add: frames_delivered_def)

text \<open>
  What a pull gives on a ring in order: the conversions of the oldest queued frames, then
  silence up to the period; the ring stays in order and loses the frames delivered.
\<close>

lemma callback_ring:
  assumes ok: "ring_ok s"
  shows "ring_ok (snd (snd (snd (jack_stream_write_cb rnd s env nframes))))"
    and "audio_occupancy (snd (snd (snd (jack_stream_write_cb rnd s env nframes))))
         = audio_occupancy s - frames_delivered s nframes"
    and "map (fst (snd (jack_stream_write_cb rnd s env nframes))) [0..<unat nframes]
         = converted_frames rnd (queued_bytes s) (frames_delivered s nframes) IFT_frame_left_sample
           @ replicate (unat nframes - frames_delivered s nframes) 0"
    and "map (fst (snd (snd (jack_stream_write_cb rnd s env nframes)))) [0..<unat nframes]
         = converted_frames rnd (queued_bytes s) (frames_delivered s nframes) IFT_frame_right_sample
           @ replicate (unat nframes - frames_delivered s nframes) 0"
proof -
  define f where "f = frames_delivered s nframes"
  define l where "l = audio_lmb s"
  define t where "t = audio_toq s - audio_lmb s"
  define e where "e = audio_eoq s - audio_lmb s"
  define occ where "occ = audio_occupancy s"
  let ?c = buffer_size
  let ?s' = "snd (snd (snd (jack_stream_write_cb rnd s env nframes)))"
  have ptrs: "audio_toq s = l + t" "audio_umb s = l + ?c" "t \<le> ?c" "4 dvd t" "l + ?c < 2 ^ 64"
    "occ * 4 \<le> ?c" "audio_eoq s = l + e" "e \<le> ?c" "4 dvd e"
    "e mod ?c = (t + occ * 4) mod ?c"
    using ring_ok_offsets [OF ok] by (simp_all add: l_def t_def e_def occ_def)
  have f: "f \<le> occ" "f \<le> unat nframes"
    unfolding f_def occ_def by (rule frames_delivered_le)+
  have f4: "f * 4 \<le> ?c"
    using f(1) ptrs(6) by linarith
  have nf: "nframes_of_size_t f = f"
    using f4 buffer_size_facts(3) by (intro nframes_of_size_t_small) (simp; linarith)
  have pd: "ptr_diff (audio_umb s) (audio_toq s) = ?c - t"
    using ptrs by (subst ptr_diff_le) simp_all
  have p4: "?c - t = 4 * ((?c - t) div 4)"
    using ptrs(4) buffer_size_facts(2) by simp
  define t' where "t' = (if f * 4 \<le> ?c - t then t + f * 4 else t + f * 4 - ?c)"
  have toq': "audio_toq ?s' = l + t'"
  proof (cases "f * 4 \<le> ?c - t")
    case True
    then show ?thesis
      unfolding cb_state pd f_def [symmetric] by (simp add: t'_def ptrs(1))
  next
    case False
    then have "(f - (?c - t) div 4) * 4 = t + f * 4 - ?c"
      using p4 ptrs(3) by linarith
    then show ?thesis
      unfolding cb_state pd f_def [symmetric] using False by (simp add: t'_def l_def)
  qed
  have f': "audio_lmb ?s' = l" "audio_umb ?s' = l + ?c" "audio_eoq ?s' = l + e"
    "audio_occupancy ?s' = occ - f"
    using ptrs(2,7) by (simp_all add: cb_state l_def occ_def f_def)
  show "audio_occupancy ?s' = audio_occupancy s - frames_delivered s nframes"
    using f'(4) by (simp add: occ_def f_def)
  have t'1: "t' \<le> ?c"
    unfolding t'_def using ptrs(3) f4 by (simp; linarith)
  have t'2: "4 dvd t'"
    unfolding t'_def using ptrs(4) buffer_size_facts(2) by simp
  have t'3: "t' mod ?c = (t + f * 4) mod ?c"
  proof (cases "f * 4 \<le> ?c - t")
    case True
    then show ?thesis by (simp add: t'_def)
  next
    case False
    then have "?c \<le> t + f * 4"
      using ptrs(3) by linarith
    then show ?thesis using False by (simp add: t'_def le_mod_geq)
  qed
  have "(t' + (occ - f) * 4) mod ?c = (t + f * 4 + (occ - f) * 4) mod ?c"
    using mod_shift_cong [OF t'3] .
  also have "t + f * 4 + (occ - f) * 4 = t + occ * 4"
    using f(1) by linarith
  finally have t'4: "e mod ?c = (t' + (occ - f) * 4) mod ?c"
    using ptrs(10) by simp
  have o4: "(occ - f) * 4 \<le> ?c"
    using ptrs(6) by linarith
  show "ring_ok ?s'"
    unfolding ring_ok_def f' toq' using t'1 t'2 t'4 o4 ptrs(5,8,9) by simp
  have silent: "nframes_of_size_t f \<le> j \<and> j < unat nframes \<longleftrightarrow> f \<le> j \<and> j < unat nframes" for j
    by (simp add: nf)
  have out: "fst (snd (jack_stream_write_cb rnd s env nframes)) j =
        (if j < f then converted_value rnd (frame_sample (queued_bytes s) j IFT_frame_left_sample)
         else 0)"
      "fst (snd (snd (jack_stream_write_cb rnd s env nframes))) j =
        (if j < f then converted_value rnd (frame_sample (queued_bytes s) j IFT_frame_right_sample)
         else 0)"
    if "j < unat nframes" for j
  proof -
    have conv: "transferred rnd s out f side j
        = converted_value rnd (frame_sample (queued_bytes s) j side)" if "j < f" for out side
    proof -
      have "j < audio_occupancy s"
        using that f(1) by (simp add: occ_def)
      then show ?thesis
        using transferred_at [OF ok _ that, of rnd out side] f(1)
        by (simp add: frame_sample_queued [OF ok] occ_def)
    qed
    show "fst (snd (jack_stream_write_cb rnd s env nframes)) j =
        (if j < f then converted_value rnd (frame_sample (queued_bytes s) j IFT_frame_left_sample)
         else 0)"
      unfolding cb_buffers f_def [symmetric] fill_silence_at silent
      using that conv by simp
    show "fst (snd (snd (jack_stream_write_cb rnd s env nframes))) j =
        (if j < f then converted_value rnd (frame_sample (queued_bytes s) j IFT_frame_right_sample)
         else 0)"
      unfolding cb_buffers f_def [symmetric] fill_silence_at silent
      using that conv by simp
  qed
  have lists: "map g [0..<unat nframes]
      = converted_frames rnd (queued_bytes s) f side @ replicate (unat nframes - f) 0"
    if "\<And>j. j < unat nframes \<Longrightarrow> g j =
        (if j < f then converted_value rnd (frame_sample (queued_bytes s) j side) else 0)"
    for g side
  proof (rule nth_equalityI)
    show "length (map g [0..<unat nframes])
        = length (converted_frames rnd (queued_bytes s) f side @ replicate (unat nframes - f) 0)"
      using f(2) by (simp add: converted_frames_def)
  next
    fix j assume "j < length (map g [0..<unat nframes])"
    then have "j < unat nframes" by simp
    then show "map g [0..<unat nframes] ! j
        = (converted_frames rnd (queued_bytes s) f side @ replicate (unat nframes - f) 0) ! j"
      using that [of j] by (simp add: nth_append converted_frames_def)
  qed
  show "map (fst (snd (jack_stream_write_cb rnd s env nframes))) [0..<unat nframes]
         = converted_frames rnd (queued_bytes s) (frames_delivered s nframes) IFT_frame_left_sample
           @ replicate (unat nframes - frames_delivered s nframes) 0"
    using lists [OF out(1)] by (simp add: f_def)
  show "map (fst (snd (snd (jack_stream_write_cb rnd s env nframes)))) [0..<unat nframes]
         = converted_frames rnd (queued_bytes s) (frames_delivered s nframes) IFT_frame_right_sample
           @ replicate (unat nframes - frames_delivered s nframes) 0"
    using lists [OF out(2)] by (simp add: f_def)
qed


subsection \<open>Sequences that respect the free space\<close>

lemma ring_ok_fresh: "ring_ok fresh_state"
  by (simp add: ring_ok_def fresh_state_fields buffer_size_def)

lemma ring_ok_near_end: "ring_ok near_end_state"
  by (simp add: ring_ok_def near_end_state_def fresh_state_fields buffer_size_def)

lemma ring_ok_init:
  assumes "p + buffer_size < 2 ^ 64"
  shows "ring_ok (jack_init_buffer p s)"
  using assms by (simp add: ring_ok_def jack_init_buffer_def Let_def)

lemma ring_ok_capacity: "ring_ok s \<Longrightarrow> audio_occupancy s \<le> buffer_size div 4"
  using ring_ok_offsets(10) [of s] by simp

lemma apply_op_ring_ok:
  assumes "ring_ok s" and "fits s x"
  shows "ring_ok (apply_op rnd s x)"
proof (cases x)
  case (Push buf samples)
  then show ?thesis
    using assms play_fits_ring(1) [of s samples buf] by simp
next
  case (Pull env nframes)
  then show ?thesis
    using assms(1) callback_ring(1) [of s rnd env nframes] by simp
qed

lemma run_ring_ok: "ring_ok s \<Longrightarrow> all_fit rnd s ops \<Longrightarrow> ring_ok (run rnd s ops)"
  by (induction ops arbitrary: s) (simp_all add: apply_op_ring_ok)

lemma all_fit_take: "all_fit rnd s ops \<Longrightarrow> all_fit rnd s (take k ops)"
proof (induction ops arbitrary: s k)
  case Nil
  then show ?case by simp
next
  case (Cons x xs)
  then show ?case by (cases k) simp_all
qed

text \<open>
  C2, amended. Starting from the ring as \<open>jack_init\<close> sets it up, after every prefix of
  a sequence of pushes and pulls in which each push has a sample count that is not
  negative and a byte count of at most the free space at that moment, the occupancy is
  at most the capacity of \<open>buffer_size / 4\<close> frames. (It is a \<open>size_t\<close> and so never
  negative.)
\<close>

theorem occupancy_within_capacity:
  assumes "p + buffer_size < 2 ^ 64"
    and "all_fit rnd (jack_init_buffer p s) ops"
  shows "audio_occupancy (run rnd (jack_init_buffer p s) (take k ops)) \<le> buffer_size div 4"
  using ring_ok_capacity [OF run_ring_ok [OF ring_ok_init [OF assms(1)] all_fit_take [OF assms(2)]]] .

theorem occupancy_within_capacity_witness:
  "(4096 :: nat) + buffer_size < 2 ^ 64
   \<and> all_fit no_rounding (jack_init_buffer 4096 zero_state)
        [Push ones_buf 2, Pull example_env 1, Push ones_buf 176399]
   \<and> audio_occupancy (run no_rounding (jack_init_buffer 4096 zero_state)
        (take 3 [Push ones_buf 2, Pull example_env 1, Push ones_buf 176399]))
       \<le> buffer_size div 4"
proof -
  have p: "(4096 :: nat) + buffer_size < 2 ^ 64"
    by (simp add: buffer_size_def)
  have ok: "ring_ok fresh_state"
    by (rule ring_ok_fresh)
  have f1: "fits fresh_state (Push ones_buf 2)"
    by (simp add: fresh_state_fields buffer_size_def)
  have o1: "audio_occupancy (apply_op no_rounding fresh_state (Push ones_buf 2)) = 2"
    using play_fits_ring(2) [OF ok, of 2 ones_buf] by (simp add: fresh_state_fields buffer_size_def)
  have o2: "audio_occupancy (apply_op no_rounding
      (apply_op no_rounding fresh_state (Push ones_buf 2)) (Pull example_env 1)) = 1"
    using o1 by (simp add: cb_state frames_delivered_def)
  have a: "all_fit no_rounding (jack_init_buffer 4096 zero_state)
      [Push ones_buf 2, Pull example_env 1, Push ones_buf 176399]"
    using f1 o2 unfolding fresh_state_def [symmetric] by (simp add: buffer_size_def)
  show ?thesis
    using occupancy_within_capacity [OF p a, of 3] p a by simp
qed

subsection \<open>Pushing within the free space\<close>

lemma play_returns_0: "fst (play s buf samples) = 0"
  by (simp add: play_def Let_def)

text \<open>
  C1, amended. \<open>play\<close> has no overflow failure: every call returns 0. A call on a ring
  in order, with a sample count that is not negative and a byte count of at most the
  free space \<open>buffer_size - occupancy * 4\<close>, leaves the ring in order, adds its frames
  to the occupancy and corrupts no queued data: the queued bytes afterwards are those
  queued before, followed by the bytes pushed.
\<close>

theorem play_within_free_space:
  "fst (play s buf samples) = 0
   \<and> (ring_ok s \<and> 0 \<le> sint samples
        \<and> sint samples * 4 \<le> int buffer_size - int (audio_occupancy s) * 4
      \<longrightarrow> ring_ok (snd (play s buf samples))
          \<and> audio_occupancy (snd (play s buf samples))
              = audio_occupancy s + nat (sint samples)
          \<and> queued_bytes (snd (play s buf samples))
              = queued_bytes s @ map buf [0..<nat (sint samples) * 4])"
  using play_fits_ring [of s samples buf] play_returns_0 [of s buf samples] by blast

theorem play_within_free_space_witness:
  "ring_ok near_end_state \<and> 0 \<le> sint (2 :: 32 word)
   \<and> sint (2 :: 32 word) * 4 \<le> int buffer_size - int (audio_occupancy near_end_state) * 4
   \<and> fst (play near_end_state count_buf 2) = 0
   \<and> audio_occupancy (snd (play near_end_state count_buf 2)) = 2
   \<and> queued_bytes (snd (play near_end_state count_buf 2)) = [0, 1, 2, 3, 4, 5, 6, 7]"
proof -
  have h: "0 \<le> sint (2 :: 32 word)"
    "sint (2 :: 32 word) * 4 \<le> int buffer_size - int (audio_occupancy near_end_state) * 4"
    by (simp_all add: near_end_state_def fresh_state_fields buffer_size_def)
  have q: "queued_bytes near_end_state = []" "audio_occupancy near_end_state = 0"
    by (simp_all add: queued_bytes_def near_end_state_def fresh_state_fields)
  have b: "map count_buf [0..<nat (sint (2 :: 32 word)) * 4] = [0, 1, 2, 3, 4, 5, 6, 7]"
    by (simp add: count_buf_def upt_conv_Cons)
  show ?thesis
    using play_within_free_space [of near_end_state count_buf 2] ring_ok_near_end h q b
    by simp
qed

subsection \<open>Pulling more than is queued\<close>

text \<open>
  C3. When the callback is asked for more frames than the occupancy, it returns 0, which
  is its only result, every place of both port buffers from the occupancy up to the
  number of frames asked for holds zero, and the occupancy is zero afterwards. On a
  ring in order the places before hold the conversions of all the queued frames, in
  order: each port buffer is those conversions followed by the zeros, a full period.
\<close>

theorem underflow_fill:
  assumes "audio_occupancy s < unat nframes"
  shows "fst (jack_stream_write_cb rnd s env nframes) = 0
    \<and> audio_occupancy (snd (snd (snd (jack_stream_write_cb rnd s env nframes)))) = 0
    \<and> (\<forall>j. audio_occupancy s \<le> j \<and> j < unat nframes \<longrightarrow>
          fst (snd (jack_stream_write_cb rnd s env nframes)) j = 0
          \<and> fst (snd (snd (jack_stream_write_cb rnd s env nframes))) j = 0)
    \<and> (ring_ok s \<longrightarrow>
          map (fst (snd (jack_stream_write_cb rnd s env nframes))) [0..<unat nframes]
            = converted_frames rnd (queued_bytes s) (audio_occupancy s) IFT_frame_left_sample
              @ replicate (unat nframes - audio_occupancy s) 0
          \<and> map (fst (snd (snd (jack_stream_write_cb rnd s env nframes)))) [0..<unat nframes]
            = converted_frames rnd (queued_bytes s) (audio_occupancy s) IFT_frame_right_sample
              @ replicate (unat nframes - audio_occupancy s) 0)"
proof -
  have f: "frames_delivered s nframes = audio_occupancy s"
    using assms by (simp add: frames_delivered_def)
  have "unat nframes < 2 ^ 32"
    using unsigned_less [of nframes, where ?'a = nat] by simp
  then have "audio_occupancy s < 2 ^ 32"
    using assms by linarith
  then have nf: "nframes_of_size_t (audio_occupancy s) = audio_occupancy s"
    by (rule nframes_of_size_t_small)
  have after: "audio_occupancy (snd (snd (snd (jack_stream_write_cb rnd s env nframes)))) = 0"
    by (simp add: cb_state f)
  have zeros: "\<forall>j. audio_occupancy s \<le> j \<and> j < unat nframes \<longrightarrow>
      fst (snd (jack_stream_write_cb rnd s env nframes)) j = 0
      \<and> fst (snd (snd (jack_stream_write_cb rnd s env nframes))) j = 0"
    unfolding cb_buffers f fill_silence_at nf by simp
  have lists: "ring_ok s \<longrightarrow>
      map (fst (snd (jack_stream_write_cb rnd s env nframes))) [0..<unat nframes]
        = converted_frames rnd (queued_bytes s) (audio_occupancy s) IFT_frame_left_sample
          @ replicate (unat nframes - audio_occupancy s) 0
      \<and> map (fst (snd (snd (jack_stream_write_cb rnd s env nframes)))) [0..<unat nframes]
        = converted_frames rnd (queued_bytes s) (audio_occupancy s) IFT_frame_right_sample
          @ replicate (unat nframes - audio_occupancy s) 0"
    using callback_ring(3,4) [of s rnd env nframes] by (simp add: f)
  show ?thesis
    using cb_ret [of rnd s env nframes] after zeros lists by blast
qed

lemma one_frame_state_ring:
  "ring_ok one_frame_state" "audio_occupancy one_frame_state = 1"
  "queued_bytes one_frame_state = [0, 1, 2, 3]"
proof -
  have h: "0 \<le> sint (1 :: 32 word)"
    "sint (1 :: 32 word) * 4 \<le> int buffer_size - int (audio_occupancy near_end_state) * 4"
    by (simp_all add: near_end_state_def fresh_state_fields buffer_size_def)
  have q: "queued_bytes near_end_state = []" "audio_occupancy near_end_state = 0"
    by (simp_all add: queued_bytes_def near_end_state_def fresh_state_fields)
  have b: "map count_buf [0..<4] = [0, 1, 2, 3]"
    by code_simp
  show "ring_ok one_frame_state"
    unfolding one_frame_state_def by (rule play_fits_ring(1) [OF ring_ok_near_end h])
  show "audio_occupancy one_frame_state = 1"
    unfolding one_frame_state_def play_fits_ring(2) [OF ring_ok_near_end h] by (simp add: q)
  show "queued_bytes one_frame_state = [0, 1, 2, 3]"
    unfolding one_frame_state_def play_fits_ring(3) [OF ring_ok_near_end h] by (simp add: q b)
qed

theorem underflow_fill_witness:
  "ring_ok one_frame_state \<and> audio_occupancy one_frame_state < unat (3 :: 32 word)
   \<and> map (fst (snd (jack_stream_write_cb no_rounding one_frame_state example_env 3))) [0..<3]
       = [256 / 32767, 0, 0]
   \<and> map (fst (snd (snd (jack_stream_write_cb no_rounding one_frame_state example_env 3))))
        [0..<3]
       = [770 / 32767, 0, 0]"
proof -
  have h: "audio_occupancy one_frame_state < unat (3 :: 32 word)"
    by (simp add: one_frame_state_ring(2))
  have l: "converted_frames no_rounding [0, 1, 2, 3] (Suc 0) IFT_frame_left_sample
      = [256 / 32767]"
    "converted_frames no_rounding [0, 1, 2, 3] (Suc 0) IFT_frame_right_sample = [770 / 32767]"
    by (simp_all add: converted_frames_def frame_sample_def converted_value_def word_cat_eq
        SHRT_MAX_def no_rounding_def)
  have r: "replicate 2 (0 :: real) = [0, 0]"
    by code_simp
  show ?thesis
    using underflow_fill [OF h, of no_rounding example_env] one_frame_state_ring(1) h
    by (simp add: one_frame_state_ring(2,3) l r)
qed

subsection \<open>Pushing across the end of the ring\<close>

text \<open>
  C6. A push that fits and whose bytes do not fit before the end of the block is split:
  the write cursor ends behind the start of the block. The queue then holds the bytes
  queued before followed by the bytes pushed, and a pull of all the frames delivers their
  conversions sample by sample, in order, on both ports. On an empty ring the pull of
  as many frames as were pushed delivers exactly the conversions of the input.
\<close>

theorem wrap_round_trip:
  assumes ok: "ring_ok s" and nonneg: "0 \<le> sint samples"
    and room: "sint samples * 4 \<le> int buffer_size - int (audio_occupancy s) * 4"
    and crossing: "int (audio_umb s - audio_eoq s) < sint samples * 4"
    and period: "unat nframes = audio_occupancy s + nat (sint samples)"
  shows "audio_eoq (snd (play s buf samples))
           = audio_lmb s + nat (sint samples) * 4 - (audio_umb s - audio_eoq s)
    \<and> queued_bytes (snd (play s buf samples))
        = queued_bytes s @ map buf [0..<nat (sint samples) * 4]
    \<and> map (fst (snd (jack_stream_write_cb rnd (snd (play s buf samples)) env nframes)))
          [0..<unat nframes]
        = converted_frames rnd (queued_bytes s @ map buf [0..<nat (sint samples) * 4])
            (audio_occupancy s + nat (sint samples)) IFT_frame_left_sample
    \<and> map (fst (snd (snd (jack_stream_write_cb rnd (snd (play s buf samples)) env nframes))))
          [0..<unat nframes]
        = converted_frames rnd (queued_bytes s @ map buf [0..<nat (sint samples) * 4])
            (audio_occupancy s + nat (sint samples)) IFT_frame_right_sample
    \<and> (audio_occupancy s = 0 \<longrightarrow>
          map (fst (snd (jack_stream_write_cb rnd (snd (play s buf samples)) env nframes)))
            [0..<nat (sint samples)]
          = converted_frames rnd (map buf [0..<nat (sint samples) * 4])
              (nat (sint samples)) IFT_frame_left_sample
        \<and> map (fst (snd (snd (jack_stream_write_cb rnd (snd (play s buf samples)) env nframes))))
            [0..<nat (sint samples)]
          = converted_frames rnd (map buf [0..<nat (sint samples) * 4])
              (nat (sint samples)) IFT_frame_right_sample)
    \<and> audio_occupancy
         (snd (snd (snd (jack_stream_write_cb rnd (snd (play s buf samples)) env nframes)))) = 0"
proof -
  let ?s1 = "snd (play s buf samples)"
  let ?n = "nat (sint samples)"
  have split: "\<not> ?n * 4 \<le> audio_umb s - audio_eoq s"
    using crossing nonneg by linarith
  have eoq: "audio_eoq ?s1 = audio_lmb s + ?n * 4 - (audio_umb s - audio_eoq s)"
    unfolding play_fits [OF ok nonneg room] using split by simp
  have ok1: "ring_ok ?s1" and occ1: "audio_occupancy ?s1 = audio_occupancy s + ?n"
    and q1: "queued_bytes ?s1 = queued_bytes s @ map buf [0..<?n * 4]"
    using play_fits_ring [OF ok nonneg room] by simp_all
  have f: "frames_delivered ?s1 nframes = audio_occupancy s + ?n"
    by (simp add: frames_delivered_def occ1 period)
  have left: "map (fst (snd (jack_stream_write_cb rnd ?s1 env nframes))) [0..<unat nframes]
      = converted_frames rnd (queued_bytes s @ map buf [0..<?n * 4])
          (audio_occupancy s + ?n) IFT_frame_left_sample"
    using callback_ring(3) [OF ok1, of rnd env nframes] by (simp add: f q1 period)
  have right: "map (fst (snd (snd (jack_stream_write_cb rnd ?s1 env nframes)))) [0..<unat nframes]
      = converted_frames rnd (queued_bytes s @ map buf [0..<?n * 4])
          (audio_occupancy s + ?n) IFT_frame_right_sample"
    using callback_ring(4) [OF ok1, of rnd env nframes] by (simp add: f q1 period)
  have empty: "queued_bytes s = []" if "audio_occupancy s = 0"
    using that by (simp add: queued_bytes_def)
  have after: "audio_occupancy (snd (snd (snd (jack_stream_write_cb rnd ?s1 env nframes)))) = 0"
    using callback_ring(2) [OF ok1, of rnd env nframes] by (simp add: f occ1)
  have special: "audio_occupancy s = 0 \<longrightarrow>
      map (fst (snd (jack_stream_write_cb rnd ?s1 env nframes))) [0..<?n]
        = converted_frames rnd (map buf [0..<?n * 4]) ?n IFT_frame_left_sample
      \<and> map (fst (snd (snd (jack_stream_write_cb rnd ?s1 env nframes)))) [0..<?n]
        = converted_frames rnd (map buf [0..<?n * 4]) ?n IFT_frame_right_sample"
  proof
    assume z: "audio_occupancy s = 0"
    have p: "unat nframes = ?n"
      using period z by simp
    show "map (fst (snd (jack_stream_write_cb rnd ?s1 env nframes))) [0..<?n]
        = converted_frames rnd (map buf [0..<?n * 4]) ?n IFT_frame_left_sample
      \<and> map (fst (snd (snd (jack_stream_write_cb rnd ?s1 env nframes)))) [0..<?n]
        = converted_frames rnd (map buf [0..<?n * 4]) ?n IFT_frame_right_sample"
      using left right unfolding p empty [OF z] z by simp
  qed
  show ?thesis
    using eoq q1 left right after special by blast
qed

theorem wrap_round_trip_witness:
  "ring_ok near_end_state \<and> 0 \<le> sint (2 :: 32 word)
   \<and> sint (2 :: 32 word) * 4 \<le> int buffer_size - int (audio_occupancy near_end_state) * 4
   \<and> int (audio_umb near_end_state - audio_eoq near_end_state) < sint (2 :: 32 word) * 4
   \<and> unat (2 :: 32 word) = audio_occupancy near_end_state + nat (sint (2 :: 32 word))
   \<and> audio_eoq (snd (play near_end_state count_buf 2)) = 4096 + 4
   \<and> map (fst (snd (jack_stream_write_cb no_rounding (snd (play near_end_state count_buf 2))
          example_env 2))) [0..<2] = [256 / 32767, 1284 / 32767]
   \<and> map (fst (snd (snd (jack_stream_write_cb no_rounding
          (snd (play near_end_state count_buf 2)) example_env 2)))) [0..<2]
       = [770 / 32767, 1798 / 32767]"
proof -
  have h: "0 \<le> sint (2 :: 32 word)"
    "sint (2 :: 32 word) * 4 \<le> int buffer_size - int (audio_occupancy near_end_state) * 4"
    "int (audio_umb near_end_state - audio_eoq near_end_state) < sint (2 :: 32 word) * 4"
    "unat (2 :: 32 word) = audio_occupancy near_end_state + nat (sint (2 :: 32 word))"
    by (simp_all add: near_end_state_def fresh_state_fields buffer_size_def)
  have q: "audio_occupancy near_end_state = 0" "audio_lmb near_end_state = 4096"
    "audio_umb near_end_state - audio_eoq near_end_state = 4"
    by (simp_all add: near_end_state_def fresh_state_fields buffer_size_def)
  have b: "map count_buf [0..<8] = [0, 1, 2, 3, 4, 5, 6, 7]"
    by code_simp
  have l: "converted_frames no_rounding [0, 1, 2, 3, 4, 5, 6, 7] 2 IFT_frame_left_sample
      = [256 / 32767, 1284 / 32767]"
    "converted_frames no_rounding [0, 1, 2, 3, 4, 5, 6, 7] 2 IFT_frame_right_sample
      = [770 / 32767, 1798 / 32767]"
    by (simp_all add: converted_frames_def frame_sample_def converted_value_def word_cat_eq
        SHRT_MAX_def no_rounding_def upt_conv_Cons)
  note w = wrap_round_trip [OF ring_ok_near_end h, of count_buf no_rounding example_env]
  have e: "audio_eoq (snd (play near_end_state count_buf 2)) = 4096 + 4"
    using w by (simp add: q)
  have "map (fst (snd (jack_stream_write_cb no_rounding (snd (play near_end_state count_buf 2))
          example_env 2))) [0..<nat (sint (2 :: 32 word))]
      = converted_frames no_rounding (map count_buf [0..<nat (sint (2 :: 32 word)) * 4])
          (nat (sint (2 :: 32 word))) IFT_frame_left_sample"
    using w q(1) by blast
  then have left: "map (fst (snd (jack_stream_write_cb no_rounding
      (snd (play near_end_state count_buf 2)) example_env 2))) [0..<2]
      = [256 / 32767, 1284 / 32767]"
    by (simp add: b l)
  have "map (fst (snd (snd (jack_stream_write_cb no_rounding
          (snd (play near_end_state count_buf 2)) example_env 2))))
          [0..<nat (sint (2 :: 32 word))]
      = converted_frames no_rounding (map count_buf [0..<nat (sint (2 :: 32 word)) * 4])
          (nat (sint (2 :: 32 word))) IFT_frame_right_sample"
    using w q(1) by blast
  then have right: "map (fst (snd (snd (jack_stream_write_cb no_rounding
      (snd (play near_end_state count_buf 2)) example_env 2)))) [0..<2]
      = [770 / 32767, 1798 / 32767]"
    by (simp add: b l)
  show ?thesis
    using ring_ok_near_end h e left right by blast
qed


end
